theory Spec2Isabelle
  imports
    Complex_Main
    "HOL-Library.AList"
    "HOL-Library.Multiset"
    "HOL-Library.Char_ord"
    "HOL-Library.List_Lexorder"
    "HOL-Library.Product_Lexorder"
begin

section \<open>JavaScript objects with string keys\<close>

text \<open>
  The caches of this program are plain objects keyed by CAIP19 identifiers or by vault
  addresses. Such keys are never array indices, so an object enumerates them in insertion
  order, and \<^verbatim>\<open>Object.keys\<close>, \<^verbatim>\<open>Object.values\<close> and
  \<^verbatim>\<open>Object.entries\<close> read that order. An object is therefore an association list:
  \<^item> \<^verbatim>\<open>o[k]\<close> is \<open>map_of o k\<close> (\<open>None\<close> for \<^verbatim>\<open>undefined\<close>);
  \<^item> \<^verbatim>\<open>o[k] = v\<close> is \<open>AList.update k v o\<close>: the value is replaced in place when the
    key exists, and the pair is appended otherwise;
  \<^item> \<^verbatim>\<open>delete o[k]\<close> is \<open>AList.delete k o\<close>;
  \<^item> \<^verbatim>\<open>{...a, ...b}\<close> copies \<open>a\<close> and then assigns the entries of \<open>b\<close> in their order.
\<close>

type_synonym 'v obj = "(string \<times> 'v) list"

definition spread :: "'v obj \<Rightarrow> 'v obj \<Rightarrow> 'v obj" where
  "spread a b = fold (\<lambda>(k, v). AList.update k v) b a"

text \<open>
  \<^verbatim>\<open>Array.from(new Set(xs))\<close>: a Set keeps each value once, in the order of first
  insertion. \<open>set_add_all seen xs\<close> adds the elements of \<open>xs\<close> one by one to the Set whose
  insertion order is \<open>seen\<close>.
\<close>

fun set_add_all :: "'a list \<Rightarrow> 'a list \<Rightarrow> 'a list" where
  "set_add_all seen [] = seen"
| "set_add_all seen (x # xs) =
     (if x \<in> set seen then set_add_all seen xs else set_add_all (seen @ [x]) xs)"

definition array_from_set :: "'a list \<Rightarrow> 'a list" where
  "array_from_set xs = set_add_all [] xs"

section \<open>The asset cache (assetsSlice.ts)\<close>

type_synonym CAIP19 = string

text \<open>
  The fields of an \<^verbatim>\<open>Asset\<close> that this program reads or writes. \<open>precision\<close> is the
  token's number of decimals; \<open>description\<close> is optional.
\<close>

record Asset =
  caip19 :: CAIP19
  name :: string
  symbol :: string
  precision :: nat
  icon :: string
  color :: string
  description :: "string option"

record AssetsState =
  byId :: "Asset obj"
  ids :: "CAIP19 list"

definition initialState :: AssetsState where
  "initialState = \<lparr> byId = [], ids = [] \<rparr>"

text \<open>The reducer \<^verbatim>\<open>setAssets\<close> (the upsert).\<close>

definition setAssets :: "AssetsState \<Rightarrow> AssetsState \<Rightarrow> AssetsState" where
  "setAssets state payload =
     \<lparr> byId = spread (byId state) (byId payload),
       ids = array_from_set (ids state @ ids payload) \<rparr>"

text \<open>The case \<^verbatim>\<open>fetchAsset.fulfilled\<close>; \<open>assetCAIP19\<close> is \<^verbatim>\<open>meta.arg\<close>.\<close>

definition fetchAsset_fulfilled :: "AssetsState \<Rightarrow> CAIP19 \<Rightarrow> Asset \<Rightarrow> AssetsState" where
  "fetchAsset_fulfilled state assetCAIP19 payload =
     \<lparr> byId = AList.update assetCAIP19 payload (byId state),
       ids = (if assetCAIP19 \<in> set (ids state) then ids state
              else ids state @ [assetCAIP19]) \<rparr>"

text \<open>The case \<^verbatim>\<open>fetchAsset.rejected\<close> only logs.\<close>

definition fetchAsset_rejected :: "AssetsState \<Rightarrow> CAIP19 \<Rightarrow> AssetsState" where
  "fetchAsset_rejected state assetCAIP19 = state"

datatype AssetsAction =
  SetAssets AssetsState
| FetchAssetFulfilled CAIP19 Asset
| FetchAssetRejected CAIP19

fun assets_reducer :: "AssetsState \<Rightarrow> AssetsAction \<Rightarrow> AssetsState" where
  "assets_reducer state (SetAssets payload) = setAssets state payload"
| "assets_reducer state (FetchAssetFulfilled arg payload) = fetchAsset_fulfilled state arg payload"
| "assets_reducer state (FetchAssetRejected arg) = fetchAsset_rejected state arg"

definition dispatch_all :: "AssetsAction list \<Rightarrow> AssetsState" where
  "dispatch_all actions = foldl assets_reducer initialState actions"

section \<open>Decimal numbers (lib/bignumber/bignumber, bignumber.js)\<close>

text \<open>
  A \<^verbatim>\<open>BigNumber\<close> is a decimal number, \<^verbatim>\<open>NaN\<close> or an infinity. \<open>Fin m s\<close> is the
  number \<open>m / 10 ^ s\<close>; \<open>Infinity neg\<close> is negative when \<open>neg\<close> holds. The library keeps a
  number without trailing zeros in its fraction, which \<open>bn_norm\<close> restores after each
  operation. The sign of zero is not tracked: no operation of this program can observe it.
\<close>

datatype BigNumber = Fin int nat | Infinity bool | NaN

fun bn_norm :: "int \<Rightarrow> nat \<Rightarrow> BigNumber" where
  "bn_norm m 0 = Fin m 0"
| "bn_norm m (Suc s) = (if m mod 10 = 0 then bn_norm (m div 10) s else Fin m (Suc s))"

text \<open>The rational number a finite \<^verbatim>\<open>BigNumber\<close> denotes.\<close>

fun bn_value :: "BigNumber \<Rightarrow> rat option" where
  "bn_value (Fin m s) = Some (of_int m / 10 ^ s)"
| "bn_value (Infinity neg) = None"
| "bn_value NaN = None"

text \<open>
  \<^verbatim>\<open>x.times(y)\<close> is exact. \<^verbatim>\<open>x.div(y)\<close> rounds the quotient to \<open>DECIMAL_PLACES\<close> decimal
  places, to the nearest neighbour and away from zero at a tie (the library's defaults,
  \<^verbatim>\<open>DECIMAL_PLACES = 20\<close> and \<^verbatim>\<open>ROUND_HALF_UP\<close>; the program's own module
  lib/bignumber/bignumber re-exports the library).
\<close>

definition DECIMAL_PLACES :: nat where
  "DECIMAL_PLACES = 20"

fun bn_times :: "BigNumber \<Rightarrow> BigNumber \<Rightarrow> BigNumber" where
  "bn_times NaN y = NaN"
| "bn_times x NaN = NaN"
| "bn_times (Fin m s) (Fin n t) = bn_norm (m * n) (s + t)"
| "bn_times (Fin m s) (Infinity b) = (if m = 0 then NaN else Infinity ((m < 0) \<noteq> b))"
| "bn_times (Infinity a) (Fin n t) = (if n = 0 then NaN else Infinity (a \<noteq> (n < 0)))"
| "bn_times (Infinity a) (Infinity b) = Infinity (a \<noteq> b)"

text \<open>\<open>round_quotient n d\<close> is \<open>n / d\<close> rounded to \<open>DECIMAL_PLACES\<close> places, for \<open>d \<noteq> 0\<close>.\<close>

definition round_quotient :: "int \<Rightarrow> int \<Rightarrow> BigNumber" where
  "round_quotient n d =
     (let q = (2 * \<bar>n\<bar> * 10 ^ DECIMAL_PLACES + \<bar>d\<bar>) div (2 * \<bar>d\<bar>)
      in bn_norm (if (n < 0) \<noteq> (d < 0) then - q else q) DECIMAL_PLACES)"

fun bn_div :: "BigNumber \<Rightarrow> BigNumber \<Rightarrow> BigNumber" where
  "bn_div NaN y = NaN"
| "bn_div x NaN = NaN"
| "bn_div (Fin m s) (Fin n t) =
     (if n = 0 then (if m = 0 then NaN else Infinity (m < 0))
      else round_quotient (m * 10 ^ t) (n * 10 ^ s))"
| "bn_div (Fin m s) (Infinity b) = Fin 0 0"
| "bn_div (Infinity a) (Fin n t) = Infinity (a \<noteq> (n < 0))"
| "bn_div (Infinity a) (Infinity b) = NaN"

fun bn_plus :: "BigNumber \<Rightarrow> BigNumber \<Rightarrow> BigNumber" where
  "bn_plus NaN y = NaN"
| "bn_plus x NaN = NaN"
| "bn_plus (Fin m s) (Fin n t) = bn_norm (m * 10 ^ t + n * 10 ^ s) (s + t)"
| "bn_plus (Fin m s) (Infinity b) = Infinity b"
| "bn_plus (Infinity a) (Fin n t) = Infinity a"
| "bn_plus (Infinity a) (Infinity b) = (if a = b then Infinity a else NaN)"

text \<open>
  \<^verbatim>\<open>x.toString()\<close>: plain decimal notation, and exponential notation when the decimal
  exponent is at most \<open>-7\<close> or at least \<open>21\<close>.
\<close>

function nat_digits :: "nat \<Rightarrow> string" where
  "nat_digits n =
     (if n < 10 then [''0123456789'' ! n]
      else nat_digits (n div 10) @ [''0123456789'' ! (n mod 10)])"
  by pat_completeness auto
termination
  by (relation "measure (\<lambda>n. n)") auto

declare nat_digits.simps [simp del]

fun strip_zeros :: "string \<Rightarrow> string" where
  "strip_zeros ds = rev (dropWhile (\<lambda>c. c = CHR ''0'') (rev ds))"

definition exponential :: "string \<Rightarrow> int \<Rightarrow> string" where
  "exponential ds e =
     (let cs = strip_zeros ds
      in take 1 cs @ (if length cs > 1 then ''.'' @ drop 1 cs else [])
         @ ''e'' @ (if e < 0 then ''-'' else ''+'') @ nat_digits (nat \<bar>e\<bar>))"

fun bn_toString :: "BigNumber \<Rightarrow> string" where
  "bn_toString NaN = ''NaN''"
| "bn_toString (Infinity neg) = (if neg then ''-Infinity'' else ''Infinity'')"
| "bn_toString (Fin m s) =
     (let ds = nat_digits (nat \<bar>m\<bar>);
          n = length ds;
          e = int n - 1 - int s;
          sign = (if m < 0 then ''-'' else [])
      in if m = 0 then ''0''
         else if e \<le> - 7 \<or> 21 \<le> e then sign @ exponential ds e
         else if s = 0 then sign @ ds
         else if s < n then sign @ take (n - s) ds @ ''.'' @ drop (n - s) ds
         else sign @ ''0.'' @ replicate (s - n) (CHR ''0'') @ ds)"

text \<open>
  Modelled from the spec: \<^verbatim>\<open>bnOrZero\<close> of lib/bignumber/bignumber, a module of this
  repository that is not among the sources. The spec has an unavailable numeric
  dependency "propagate as zero": \<^verbatim>\<open>undefined\<close>, \<^verbatim>\<open>null\<close> and a value that is not
  a finite number give zero, any other value gives the number it denotes. The argument is
  \<open>None\<close> for \<^verbatim>\<open>undefined\<close> and \<^verbatim>\<open>null\<close>, and otherwise the \<^verbatim>\<open>BigNumber\<close> that the
  string, number or \<^verbatim>\<open>BigNumber\<close> passed denotes (\<open>NaN\<close> for a string that is no numeral).
\<close>

fun bnOrZero :: "BigNumber option \<Rightarrow> BigNumber" where
  "bnOrZero None = Fin 0 0"
| "bnOrZero (Some (Fin m s)) = bn_norm m s"
| "bnOrZero (Some (Infinity neg)) = Fin 0 0"
| "bnOrZero (Some NaN) = Fin 0 0"

text \<open>
  The divisor \<^verbatim>\<open>`1e+${asset?.precision}`\<close>: the numeral \<open>1e+p\<close> when the asset is known,
  and the string \<^verbatim>\<open>1e+undefined\<close>, which denotes no number, when it is not.
\<close>

fun precision_divisor :: "nat option \<Rightarrow> BigNumber" where
  "precision_divisor (Some p) = Fin (10 ^ p) 0"
| "precision_divisor None = NaN"

section \<open>Vault balances (useVaultBalances)\<close>

type_synonym ChainTypes = string

datatype NetworkTypes = MAINNET | TESTNET

datatype ContractTypes = ERC20 | ERC721 | OTHER

datatype js_error = TypeError | Thrown string

text \<open>
  \<^verbatim>\<open>caip19.toCAIP19\<close> belongs to the package @shapeshiftoss/caip and is a parameter of
  the model: it takes chain, network, contract type and token id, and returns the
  identifier or throws.
\<close>

type_synonym toCAIP19_fn =
  "ChainTypes \<Rightarrow> NetworkTypes \<Rightarrow> ContractTypes option \<Rightarrow> string option \<Rightarrow> js_error + CAIP19"

text \<open>
  A vault definition of the list \<^verbatim>\<open>SUPPORTED_VAULTS\<close>, with the fields this program
  reads. The list itself is a constant of a module that is not among the sources and is a
  parameter of the model.
\<close>

record SupportedYearnVault =
  chain :: ChainTypes
  vaultAddress :: string
  tokenAddress :: string

text \<open>
  An entry of \<^verbatim>\<open>Balances\<close>: the account of the wallet for one identifier. Only its
  \<^verbatim>\<open>balance\<close> string is read here; the field holds the number the string denotes.
\<close>

record Account =
  balance :: "BigNumber option"

type_synonym Balances = "Account obj"

text \<open>
  The vault provider: \<^verbatim>\<open>pricePerShare\<close> resolves to a number or to no value, or
  rejects; \<^verbatim>\<open>findByVaultTokenId\<close> finds a vault, of which only \<^verbatim>\<open>apy.net_apy\<close> is
  read.
\<close>

record YearnVaultApi =
  pricePerShare :: "string \<Rightarrow> js_error + BigNumber option"
  findByVaultTokenId :: "string \<Rightarrow> real option"

record EarnVault = SupportedYearnVault +
  balance :: "BigNumber option"
  vaultCaip19 :: CAIP19
  tokenCaip19 :: CAIP19
  pricePerShare :: BigNumber

text \<open>
  \<^verbatim>\<open>getYearnVaults\<close>. \<open>getYearnVault_entry\<close> is the body of the loop over
  \<^verbatim>\<open>SUPPORTED_VAULTS\<close> for one vault: it forms the two identifiers, looks the balance up
  and, for a held vault, awaits \<^verbatim>\<open>yearn?.pricePerShare\<close>, which is \<^verbatim>\<open>undefined\<close> when
  \<open>yearn\<close> is \<^verbatim>\<open>null\<close>. The result is \<open>Inr None\<close> for a vault that is not held and the
  entry to store for one that is. A throwing codec and a rejected \<^verbatim>\<open>pricePerShare\<close>
  leave the loop and reject the whole call.
\<close>

definition getYearnVault_entry ::
  "toCAIP19_fn \<Rightarrow> Balances \<Rightarrow> YearnVaultApi option \<Rightarrow> SupportedYearnVault
   \<Rightarrow> js_error + EarnVault option" where
  "getYearnVault_entry toCAIP19 balances yearn vault =
     (case toCAIP19 (chain vault) MAINNET (Some ERC20) (Some (vaultAddress vault)) of
        Inl e \<Rightarrow> Inl e
      | Inr vaultCaip19' \<Rightarrow>
     (case toCAIP19 (chain vault) MAINNET (Some ERC20) (Some (tokenAddress vault)) of
        Inl e \<Rightarrow> Inl e
      | Inr tokenCaip19' \<Rightarrow>
     (case map_of balances vaultCaip19' of
        None \<Rightarrow> Inr None
      | Some balance' \<Rightarrow>
     (case (case yearn of None \<Rightarrow> Inr None
                        | Some y \<Rightarrow> YearnVaultApi.pricePerShare y (vaultAddress vault)) of
        Inl e \<Rightarrow> Inl e
      | Inr pricePerShare' \<Rightarrow>
          Inr (Some \<lparr> chain = chain vault,
                      vaultAddress = vaultAddress vault,
                      tokenAddress = tokenAddress vault,
                      balance = Account.balance balance',
                      vaultCaip19 = vaultCaip19',
                      tokenCaip19 = tokenCaip19',
                      pricePerShare = bnOrZero pricePerShare' \<rparr>)))))"

fun getYearnVaults_loop ::
  "toCAIP19_fn \<Rightarrow> Balances \<Rightarrow> YearnVaultApi option \<Rightarrow> SupportedYearnVault list
   \<Rightarrow> EarnVault obj \<Rightarrow> js_error + EarnVault obj" where
  "getYearnVaults_loop toCAIP19 balances yearn [] acc = Inr acc"
| "getYearnVaults_loop toCAIP19 balances yearn (vault # rest) acc =
     (case getYearnVault_entry toCAIP19 balances yearn vault of
        Inl e \<Rightarrow> Inl e
      | Inr None \<Rightarrow> getYearnVaults_loop toCAIP19 balances yearn rest acc
      | Inr (Some entry) \<Rightarrow>
          getYearnVaults_loop toCAIP19 balances yearn rest
            (AList.update (vaultAddress vault) entry acc))"

definition getYearnVaults ::
  "toCAIP19_fn \<Rightarrow> SupportedYearnVault list \<Rightarrow> Balances \<Rightarrow> YearnVaultApi option
   \<Rightarrow> js_error + EarnVault obj" where
  "getYearnVaults toCAIP19 SUPPORTED_VAULTS balances yearn =
     getYearnVaults_loop toCAIP19 balances yearn SUPPORTED_VAULTS []"

text \<open>
  The effect of \<^verbatim>\<open>useVaultBalances\<close>. It does nothing while the wallet is missing or a
  provider is loading (\<open>ready\<close> is false). Otherwise it computes the vaults, dispatches
  \<^verbatim>\<open>fetchAsset\<close> for both identifiers of each vault and stores the vaults; when the
  computation rejects, the \<^verbatim>\<open>catch\<close> logs the error and the stored vaults stay as they
  were. The result is the stored vaults and the arguments of the dispatched fetches.
\<close>

definition loadVaults ::
  "toCAIP19_fn \<Rightarrow> SupportedYearnVault list \<Rightarrow> bool \<Rightarrow> Balances \<Rightarrow> YearnVaultApi option
   \<Rightarrow> EarnVault obj \<Rightarrow> EarnVault obj \<times> CAIP19 list" where
  "loadVaults toCAIP19 SUPPORTED_VAULTS ready balances yearn vaults =
     (if \<not> ready then (vaults, [])
      else case getYearnVaults toCAIP19 SUPPORTED_VAULTS balances yearn of
             Inl error \<Rightarrow> (vaults, [])
           | Inr yearnVaults \<Rightarrow>
               (yearnVaults,
                concat (map (\<lambda>vault. [vaultCaip19 vault, tokenCaip19 vault])
                            (map snd yearnVaults))))"

text \<open>The market data of one asset; \<^verbatim>\<open>price\<close> is a decimal string, held as its number.\<close>

record MarketData =
  price :: "BigNumber option"

definition makeVaultFiatAmount :: "Asset obj \<Rightarrow> MarketData obj \<Rightarrow> EarnVault \<Rightarrow> BigNumber" where
  "makeVaultFiatAmount assets marketData_byId vault =
     (let asset = map_of assets (vaultCaip19 vault);
          pricePerShare' = bn_div (bnOrZero (Some (pricePerShare vault)))
                                 (precision_divisor (map_option precision asset));
          marketPrice = (case map_of marketData_byId (tokenCaip19 vault) of
                           None \<Rightarrow> None
                         | Some m \<Rightarrow> price m)
      in bn_times
           (bn_times
              (bn_div (bnOrZero (balance vault))
                      (precision_divisor (map_option precision asset)))
              pricePerShare')
           (bnOrZero marketPrice))"

definition totalBalance :: "Asset obj \<Rightarrow> MarketData obj \<Rightarrow> EarnVault obj \<Rightarrow> string" where
  "totalBalance assets marketData_byId vaults =
     bn_toString
       (foldl (\<lambda>acc vault. bn_plus acc (bnOrZero (Some (makeVaultFiatAmount assets marketData_byId vault))))
              (bnOrZero (Some (Fin 0 0)))
              (map snd vaults))"

record MergedEarnVault = EarnVault +
  cryptoAmount :: string
  fiatAmount :: string
  apy :: "real option"

text \<open>
  \<^verbatim>\<open>mergedVaults\<close>: the reduction over \<^verbatim>\<open>Object.entries(vaults)\<close>. The asset is looked up
  under the vault address here, and under the vault's identifier in
  \<open>makeVaultFiatAmount\<close>.
\<close>

definition mergeVault ::
  "Asset obj \<Rightarrow> MarketData obj \<Rightarrow> YearnVaultApi option \<Rightarrow> string \<Rightarrow> EarnVault \<Rightarrow> MergedEarnVault" where
  "mergeVault assets marketData_byId yearn vaultAddress' vault =
     (let asset = map_of assets vaultAddress';
          fiatAmount' = makeVaultFiatAmount assets marketData_byId vault;
          yearnVault = (case yearn of None \<Rightarrow> None | Some y \<Rightarrow> findByVaultTokenId y vaultAddress')
      in EarnVault.extend vault
           (MergedEarnVault.fields
              (bn_toString (bn_div (bnOrZero (balance vault))
                                   (precision_divisor (map_option precision asset))))
              (bn_toString fiatAmount')
              yearnVault))"

definition mergedVaults ::
  "Asset obj \<Rightarrow> MarketData obj \<Rightarrow> YearnVaultApi option \<Rightarrow> EarnVault obj \<Rightarrow> MergedEarnVault obj" where
  "mergedVaults assets marketData_byId yearn vaults =
     fold (\<lambda>(vaultAddress', vault) acc.
             AList.update vaultAddress' (mergeVault assets marketData_byId yearn vaultAddress' vault) acc)
          vaults []"

section \<open>Bulk description fetch (getAssetDescriptions)\<close>

datatype 'a settled = Fulfilled 'a | Rejected

text \<open>
  \<^verbatim>\<open>service.description\<close> is the asset provider's and a parameter of the model:
  \<open>service_description i a\<close> is how the \<open>i\<close>-th request, made for the cached record \<open>a\<close>,
  settles. All requests are made on the copy of the cache before any response is written.
\<close>

type_synonym description_fn = "nat \<Rightarrow> Asset option \<Rightarrow> string settled"

definition description_requests ::
  "description_fn \<Rightarrow> Asset obj \<Rightarrow> CAIP19 list \<Rightarrow> string settled list" where
  "description_requests service_description byId' assetIds =
     map (\<lambda>(idx, assetId). service_description idx (map_of byId' assetId)) (enumerate 0 assetIds)"

text \<open>
  The \<^verbatim>\<open>forEach\<close> over the settled responses. A rejected response is skipped. A
  fulfilled one is written to \<^verbatim>\<open>byId[assetIds[idx]].description\<close>, which throws a
  \<^verbatim>\<open>TypeError\<close> when the cache has no record under that identifier.
\<close>

fun write_descriptions :: "(CAIP19 \<times> string settled) list \<Rightarrow> Asset obj \<Rightarrow> js_error + Asset obj" where
  "write_descriptions [] byId' = Inr byId'"
| "write_descriptions ((assetId, Rejected) # rest) byId' = write_descriptions rest byId'"
| "write_descriptions ((assetId, Fulfilled d) # rest) byId' =
     (case map_of byId' assetId of
        None \<Rightarrow> Inl TypeError
      | Some asset \<Rightarrow>
          write_descriptions rest (AList.update assetId (asset\<lparr> description := Some d \<rparr>) byId'))"

definition getAssetDescriptions_queryFn ::
  "description_fn \<Rightarrow> AssetsState \<Rightarrow> CAIP19 list \<Rightarrow> js_error + AssetsState" where
  "getAssetDescriptions_queryFn service_description state assetIds =
     (let byId' = byId state;
          responses = description_requests service_description byId' assetIds
      in case write_descriptions (zip assetIds responses) byId' of
           Inl e \<Rightarrow> Inl e
         | Inr byId'' \<Rightarrow> Inr \<lparr> byId = byId'', ids = ids state \<rparr>)"

text \<open>
  \<^verbatim>\<open>onCacheEntryAdded\<close> dispatches \<^verbatim>\<open>setAssets\<close> with the data of the query; a query
  that failed has no data and dispatches nothing. The query reads the cache with
  \<^verbatim>\<open>getState()\<close> and awaits the service before it returns, and the dispatch follows a
  further await: \<open>state\<close> is the cache the query read and \<open>current\<close> the cache at the
  dispatch, which other actions may have changed in between.
\<close>

definition getAssetDescriptions ::
  "description_fn \<Rightarrow> AssetsState \<Rightarrow> AssetsState \<Rightarrow> CAIP19 list \<Rightarrow> AssetsState" where
  "getAssetDescriptions service_description state current assetIds =
     (case getAssetDescriptions_queryFn service_description state assetIds of
        Inl e \<Rightarrow> current
      | Inr data \<Rightarrow> setAssets current data)"

section \<open>Assets sorted by market capitalisation (selectAssetsByMarketCap)\<close>

text \<open>
  \<^verbatim>\<open>sortBy(xs, ['name', 'symbol'])\<close> is a stable sort, ascending by name and then by
  symbol, strings compared character by character.
\<close>

definition sortBy_name_symbol :: "Asset list \<Rightarrow> Asset list" where
  "sortBy_name_symbol xs = sort_key (\<lambda>a. (name a, symbol a)) xs"

text \<open>
  The selector receives references to the two cached objects, and \<^verbatim>\<open>delete\<close> changes
  the object it is applied to for every holder of a reference to it. The objects
  therefore live in a store: \<open>assetMaps s r\<close> is the asset map at reference \<open>r\<close>,
  \<open>marketMaps s r\<close> the market data at \<open>r\<close>, and the references below \<open>next_ref s\<close> are
  in use.
\<close>

type_synonym ref = nat

record Store =
  assetMaps :: "ref \<Rightarrow> Asset obj"
  marketMaps :: "ref \<Rightarrow> MarketData obj"
  next_ref :: ref

text \<open>\<^verbatim>\<open>cloneDeep(o)\<close> allocates a new object with the contents of \<open>o\<close> and returns the
  reference to it.\<close>

definition cloneDeep :: "Store \<Rightarrow> ref \<Rightarrow> Store \<times> ref" where
  "cloneDeep s r =
     (s\<lparr> assetMaps := (assetMaps s)(next_ref s := assetMaps s r),
         next_ref := Suc (next_ref s) \<rparr>,
      next_ref s)"

text \<open>
  One step of the \<^verbatim>\<open>reduce\<close> over \<^verbatim>\<open>Object.keys(marketData)\<close>: the state is the array
  \<open>acc\<close> and the store; \<open>assetById\<close> is the reference the selector works on, and
  \<^verbatim>\<open>delete assetById[cur]\<close> writes the object at that reference.
\<close>

fun byMarketCap_step :: "ref \<Rightarrow> Asset list \<times> Store \<Rightarrow> CAIP19 \<Rightarrow> Asset list \<times> Store" where
  "byMarketCap_step assetById (acc, s) cur =
     (case map_of (assetMaps s assetById) cur of
        None \<Rightarrow> (acc, s)
      | Some asset \<Rightarrow>
          (acc @ [asset],
           s\<lparr> assetMaps := (assetMaps s)(assetById := AList.delete cur (assetMaps s assetById)) \<rparr>))"

text \<open>
  The selector: it returns the array and the store as the call leaves it. \<open>marketData\<close> is
  \<open>None\<close> when the selector finds no market data.
\<close>

definition selectAssetsByMarketCap_run ::
  "Store \<Rightarrow> ref \<Rightarrow> ref option \<Rightarrow> Asset list \<times> Store" where
  "selectAssetsByMarketCap_run s assetsByIdOriginal marketData =
     (let (s1, assetById) = cloneDeep s assetsByIdOriginal
      in case marketData of
           Some md \<Rightarrow>
             (let caip19ByMarketCap = map fst (marketMaps s1 md);
                  (sortedWithMarketCap, s2) =
                     foldl (byMarketCap_step assetById) ([], s1) caip19ByMarketCap;
                  remainingSortedNoMarketCap = sortBy_name_symbol (map snd (assetMaps s2 assetById))
              in (sortedWithMarketCap @ remainingSortedNoMarketCap, s2))
         | None \<Rightarrow> (sortBy_name_symbol (map snd (assetMaps s1 assetById)), s1))"

definition selectAssetsByMarketCap :: "Store \<Rightarrow> ref \<Rightarrow> ref option \<Rightarrow> Asset list" where
  "selectAssetsByMarketCap s assetsByIdOriginal marketData =
     fst (selectAssetsByMarketCap_run s assetsByIdOriginal marketData)"

section \<open>Example data\<close>

definition asset_A :: Asset where
  "asset_A = \<lparr> caip19 = ''eip155:1/erc20:0xaa'', name = ''Aave'', symbol = ''AAVE'',
               precision = 18, icon = ''aave.png'', color = ''#B6509E'', description = None \<rparr>"

definition asset_B :: Asset where
  "asset_B = \<lparr> caip19 = ''eip155:1/erc20:0xbb'', name = ''Balancer'', symbol = ''BAL'',
               precision = 18, icon = ''bal.png'', color = ''#1E1E1E'', description = None \<rparr>"

definition asset_C :: Asset where
  "asset_C = \<lparr> caip19 = ''eip155:1/erc20:0xcc'', name = ''Compound'', symbol = ''COMP'',
               precision = 18, icon = ''comp.png'', color = ''#00D395'', description = None \<rparr>"

definition payload_A :: AssetsState where
  "payload_A = \<lparr> byId = [(''eip155:1/erc20:0xaa'', asset_A)], ids = [''eip155:1/erc20:0xaa''] \<rparr>"

definition payload_B :: AssetsState where
  "payload_B = \<lparr> byId = [(''eip155:1/erc20:0xbb'', asset_B)], ids = [''eip155:1/erc20:0xbb''] \<rparr>"

text \<open>The fiat amount scenario: precision 18, one unit held, two units per share, price 10.\<close>

definition scenario_asset :: Asset where
  "scenario_asset = \<lparr> caip19 = ''eip155:1/erc20:0x5f18'', name = ''USDC yVault'',
                      symbol = ''yvUSDC'', precision = 18, icon = ''yv.png'',
                      color = ''#276BDB'', description = None \<rparr>"

definition scenario_vault :: EarnVault where
  "scenario_vault = \<lparr> chain = ''ethereum'', vaultAddress = ''0x5f18'', tokenAddress = ''0xa0b8'',
                      balance = Some (Fin 1000000000000000000 0),
                      vaultCaip19 = ''eip155:1/erc20:0x5f18'',
                      tokenCaip19 = ''eip155:1/erc20:0xa0b8'',
                      pricePerShare = Fin 2000000000000000000 0 \<rparr>"

definition scenario_assets :: "Asset obj" where
  "scenario_assets = [(''eip155:1/erc20:0x5f18'', scenario_asset)]"

definition scenario_marketData :: "MarketData obj" where
  "scenario_marketData = [(''eip155:1/erc20:0xa0b8'', \<lparr> price = Some (Fin 10 0) \<rparr>)]"

text \<open>A codec, three vault definitions, a wallet that holds the first two, and three
  providers: one that has no price per share for the first vault, one whose fetch for the
  first vault rejects, and one that answers for every vault.\<close>

definition example_toCAIP19 :: toCAIP19_fn where
  "example_toCAIP19 chain' network contractType tokenId =
     (case tokenId of
        None \<Rightarrow> Inr ''eip155:1/slip44:60''
      | Some address \<Rightarrow> Inr (''eip155:1/erc20:'' @ address))"

definition vault_usdc :: SupportedYearnVault where
  "vault_usdc = \<lparr> chain = ''ethereum'', vaultAddress = ''0x5f18'', tokenAddress = ''0xa0b8'' \<rparr>"

definition vault_dai :: SupportedYearnVault where
  "vault_dai = \<lparr> chain = ''ethereum'', vaultAddress = ''0xda81'', tokenAddress = ''0x6b17'' \<rparr>"

definition vault_weth :: SupportedYearnVault where
  "vault_weth = \<lparr> chain = ''ethereum'', vaultAddress = ''0xa258'', tokenAddress = ''0xc02a'' \<rparr>"

definition example_vaults :: "SupportedYearnVault list" where
  "example_vaults = [vault_usdc, vault_dai, vault_weth]"

definition example_balances :: Balances where
  "example_balances =
     [(''eip155:1/erc20:0x5f18'', \<lparr> Account.balance = Some (Fin 1000000000000000000 0) \<rparr>),
      (''eip155:1/erc20:0xda81'', \<lparr> Account.balance = Some (Fin 5000000000000000000 0) \<rparr>)]"

definition yearn_no_value :: YearnVaultApi where
  "yearn_no_value =
     \<lparr> YearnVaultApi.pricePerShare = (\<lambda>address. if address = ''0x5f18'' then Inr None
                                   else Inr (Some (Fin 1050000000000000000 0))),
       findByVaultTokenId = (\<lambda>address. None) \<rparr>"

definition yearn_rejecting :: YearnVaultApi where
  "yearn_rejecting =
     \<lparr> YearnVaultApi.pricePerShare = (\<lambda>address. if address = ''0x5f18'' then Inl (Thrown ''call revert exception'')
                                   else Inr (Some (Fin 1050000000000000000 0))),
       findByVaultTokenId = (\<lambda>address. None) \<rparr>"

definition yearn_answering :: YearnVaultApi where
  "yearn_answering =
     \<lparr> YearnVaultApi.pricePerShare = (\<lambda>address. Inr (Some (Fin 1050000000000000000 0))),
       findByVaultTokenId = (\<lambda>address. None) \<rparr>"

text \<open>The vaults computed for the example wallet with the provider that answers for every
  vault, and with the provider that has no price per share for the first one.\<close>

definition usdc_entry :: "BigNumber \<Rightarrow> EarnVault" where
  "usdc_entry pps =
     \<lparr> chain = ''ethereum'', vaultAddress = ''0x5f18'', tokenAddress = ''0xa0b8'',
       balance = Some (Fin 1000000000000000000 0),
       vaultCaip19 = ''eip155:1/erc20:0x5f18'',
       tokenCaip19 = ''eip155:1/erc20:0xa0b8'',
       pricePerShare = pps \<rparr>"

definition dai_entry :: EarnVault where
  "dai_entry =
     \<lparr> chain = ''ethereum'', vaultAddress = ''0xda81'', tokenAddress = ''0x6b17'',
       balance = Some (Fin 5000000000000000000 0),
       vaultCaip19 = ''eip155:1/erc20:0xda81'',
       tokenCaip19 = ''eip155:1/erc20:0x6b17'',
       pricePerShare = Fin 1050000000000000000 0 \<rparr>"

definition example_held :: "EarnVault obj" where
  "example_held = [(''0x5f18'', usdc_entry (Fin 1050000000000000000 0)), (''0xda81'', dai_entry)]"

definition example_held_no_value :: "EarnVault obj" where
  "example_held_no_value = [(''0x5f18'', usdc_entry (Fin 0 0)), (''0xda81'', dai_entry)]"

text \<open>A cache of three assets, and a description service whose second request rejects.\<close>

definition example_cache :: AssetsState where
  "example_cache =
     \<lparr> byId = [(''eip155:1/erc20:0xaa'', asset_A), (''eip155:1/erc20:0xbb'', asset_B),
               (''eip155:1/erc20:0xcc'', asset_C)],
       ids = [''eip155:1/erc20:0xaa'', ''eip155:1/erc20:0xbb'', ''eip155:1/erc20:0xcc''] \<rparr>"

definition example_assetIds :: "CAIP19 list" where
  "example_assetIds = [''eip155:1/erc20:0xaa'', ''eip155:1/erc20:0xbb'', ''eip155:1/erc20:0xcc'']"

definition example_description :: description_fn where
  "example_description idx asset =
     (if idx = 1 then Rejected
      else case asset of
             None \<Rightarrow> Rejected
           | Some a \<Rightarrow> Fulfilled (''About '' @ name a))"

text \<open>Market data that ranks \<open>asset_B\<close> first and \<open>asset_A\<close> second and has no entry for the
  other assets; and a catalog with a fourth asset, inserted before \<open>asset_C\<close>.\<close>

definition example_marketData :: "MarketData obj" where
  "example_marketData =
     [(''eip155:1/erc20:0xbb'', \<lparr> price = Some (Fin 1725 2) \<rparr>),
      (''eip155:1/erc20:0xaa'', \<lparr> price = Some (Fin 9 0) \<rparr>)]"

definition asset_U :: Asset where
  "asset_U = \<lparr> caip19 = ''eip155:1/erc20:0xdd'', name = ''Uniswap'', symbol = ''UNI'',
               precision = 18, icon = ''uni.png'', color = ''#FF007A'', description = None \<rparr>"

definition larger_catalog :: "Asset obj" where
  "larger_catalog =
     [(''eip155:1/erc20:0xaa'', asset_A), (''eip155:1/erc20:0xbb'', asset_B),
      (''eip155:1/erc20:0xdd'', asset_U), (''eip155:1/erc20:0xcc'', asset_C)]"

text \<open>A store that holds the cache of three assets at reference 0, the larger catalog at
  reference 1 and the market data at reference 0.\<close>

definition example_store :: Store where
  "example_store =
     \<lparr> assetMaps = (\<lambda>r. if r = 0 then byId example_cache
                        else if r = 1 then larger_catalog else []),
       marketMaps = (\<lambda>r. if r = 0 then example_marketData else []),
       next_ref = 2 \<rparr>"

text \<open>A batch with an identifier that the cache does not have, a service that fulfils
  every request but the second, and the cache after a description of the second asset has
  landed.\<close>

definition uncached_assetIds :: "CAIP19 list" where
  "uncached_assetIds = [''eip155:1/erc20:0xaa'', ''eip155:1/erc20:0xbb'', ''eip155:1/erc20:0xee'']"

definition eager_description :: description_fn where
  "eager_description idx asset = (if idx = 1 then Rejected else Fulfilled ''A token'')"

definition newer_cache :: AssetsState where
  "newer_cache =
     fetchAsset_fulfilled example_cache ''eip155:1/erc20:0xbb''
       (asset_B\<lparr> description := Some ''Balancer is an automated portfolio manager'' \<rparr>)"

section \<open>Properties of the asset cache\<close>

subsection \<open>Sets and object spreads\<close>

lemma set_add_all_set: "set (set_add_all seen xs) = set seen \<union> set xs"
  by (induction seen xs rule: set_add_all.induct) auto

lemma set_add_all_distinct: "distinct seen \<Longrightarrow> distinct (set_add_all seen xs)"
  by (induction seen xs rule: set_add_all.induct) auto

lemma set_add_all_subset: "set xs \<subseteq> set seen \<Longrightarrow> set_add_all seen xs = seen"
  by (induction seen xs rule: set_add_all.induct) auto

lemma set_add_all_append: "set_add_all seen (xs @ ys) = set_add_all (set_add_all seen xs) ys"
  by (induction seen xs rule: set_add_all.induct) auto

lemma set_add_all_fresh:
  "distinct xs \<Longrightarrow> set seen \<inter> set xs = {} \<Longrightarrow> set_add_all seen xs = seen @ xs"
  by (induction seen xs rule: set_add_all.induct) auto

lemma array_from_set_distinct: "distinct (array_from_set xs)"
  by (simp add: array_from_set_def set_add_all_distinct)

lemma array_from_set_set: "set (array_from_set xs) = set xs"
  by (simp add: array_from_set_def set_add_all_set)

lemma array_from_set_idem:
  "array_from_set (array_from_set (xs @ ys) @ ys) = array_from_set (xs @ ys)"
proof -
  let ?A = "array_from_set (xs @ ys)"
  have d: "distinct ?A" by (rule array_from_set_distinct)
  have sub: "set ys \<subseteq> set ?A" by (simp add: array_from_set_set)
  have "array_from_set (?A @ ys) = set_add_all (set_add_all [] ?A) ys"
    by (simp add: array_from_set_def set_add_all_append)
  also have "set_add_all [] ?A = ?A" using d by (simp add: set_add_all_fresh)
  also have "set_add_all ?A ys = ?A" using sub by (rule set_add_all_subset)
  finally show ?thesis .
qed

text \<open>Two assignments to different keys commute when the first key is already there.\<close>

lemma update_update_commute:
  "k \<noteq> k' \<Longrightarrow> k \<in> fst ` set al \<Longrightarrow>
   AList.update k' v' (AList.update k v al) = AList.update k v (AList.update k' v' al)"
  by (induction al) auto

lemma fold_update_dom:
  "fst ` set (fold (\<lambda>(k, v). AList.update k v) b al) = fst ` set al \<union> fst ` set b"
proof (induction b arbitrary: al)
  case Nil
  then show ?case by simp
next
  case (Cons p b)
  obtain k v where p: "p = (k, v)" by (cases p)
  have "fst ` set (fold (\<lambda>(k, v). AList.update k v) b (AList.update k v al))
        = fst ` set (AList.update k v al) \<union> fst ` set b"
    by (rule Cons.IH)
  then show ?case using p by (simp add: dom_update Un_assoc insert_commute)
qed

text \<open>An assignment is lost when the spread that follows assigns the same key.\<close>

lemma fold_update_overwrite:
  "k \<in> fst ` set b \<Longrightarrow> k \<in> fst ` set al \<Longrightarrow>
   fold (\<lambda>(k, v). AList.update k v) b (AList.update k v al)
   = fold (\<lambda>(k, v). AList.update k v) b al"
proof (induction b arbitrary: al)
  case Nil
  then show ?case by simp
next
  case (Cons p b)
  obtain k1 v1 where p: "p = (k1, v1)" by (cases p)
  show ?case
  proof (cases "k1 = k")
    case True
    then show ?thesis using p by simp
  next
    case False
    with Cons.prems p have kb: "k \<in> fst ` set b" by auto
    have kin: "k \<in> fst ` set (AList.update k1 v1 al)"
      using Cons.prems(2) by (simp add: dom_update)
    have "AList.update k1 v1 (AList.update k v al) = AList.update k v (AList.update k1 v1 al)"
      using False Cons.prems(2) by (simp add: update_update_commute)
    then show ?thesis using p Cons.IH [OF kb kin] by simp
  qed
qed

text \<open>An assignment to a key already there moves across a spread that leaves the key alone.\<close>

lemma fold_update_commute:
  "k \<notin> fst ` set b \<Longrightarrow> k \<in> fst ` set al \<Longrightarrow>
   AList.update k v (fold (\<lambda>(k, v). AList.update k v) b al)
   = fold (\<lambda>(k, v). AList.update k v) b (AList.update k v al)"
proof (induction b arbitrary: al)
  case Nil
  then show ?case by simp
next
  case (Cons p b)
  obtain k1 v1 where p: "p = (k1, v1)" by (cases p)
  from Cons.prems p have ne: "k \<noteq> k1" and kb: "k \<notin> fst ` set b" by auto
  have kin: "k \<in> fst ` set (AList.update k1 v1 al)"
    using Cons.prems(2) by (simp add: dom_update)
  have "AList.update k1 v1 (AList.update k v al) = AList.update k v (AList.update k1 v1 al)"
    using ne Cons.prems(2) by (simp add: update_update_commute)
  then show ?case using p Cons.IH [OF kb kin] by simp
qed

lemma spread_idem: "spread (spread a b) b = spread a b"
  unfolding spread_def
proof (induction b arbitrary: a)
  case Nil
  then show ?case by simp
next
  case (Cons p b)
  obtain k v where p: "p = (k, v)" by (cases p)
  let ?F = "fold (\<lambda>(k, v). AList.update k v) b"
  let ?al = "AList.update k v a"
  have kin: "k \<in> fst ` set ?al" by (simp add: dom_update)
  have kinX: "k \<in> fst ` set (?F ?al)" using kin by (simp add: fold_update_dom)
  have "?F (AList.update k v (?F ?al)) = ?F ?al"
  proof (cases "k \<in> fst ` set b")
    case True
    have "?F (AList.update k v (?F ?al)) = ?F (?F ?al)"
      using True kinX by (rule fold_update_overwrite)
    then show ?thesis using Cons.IH by simp
  next
    case False
    have "AList.update k v (?F ?al) = ?F (AList.update k v ?al)"
      using False kin by (rule fold_update_commute)
    then show ?thesis using Cons.IH by simp
  qed
  then show ?case using p by simp
qed

text \<open>As a mapping, a spread is the first object overridden by the second, whose later
  entries win.\<close>

lemma spread_map_of: "map_of (spread a b) = map_of a ++ map_of (rev b)"
  unfolding spread_def
proof (induction b arbitrary: a)
  case Nil
  then show ?case by simp
next
  case (Cons p b)
  obtain k v where p: "p = (k, v)" by (cases p)
  have "map_of (fold (\<lambda>(k, v). AList.update k v) b (AList.update k v a))
        = map_of (AList.update k v a) ++ map_of (rev b)"
    by (rule Cons.IH)
  moreover have "map_of a ++ map_of (rev b @ [(k, v)]) = (map_of a)(k \<mapsto> v) ++ map_of (rev b)"
    by (simp only: map_of_append map_add_assoc) simp
  ultimately show ?case using p by (simp add: update_conv')
qed

lemma spread_distinct: "distinct (map fst a) \<Longrightarrow> distinct (map fst (spread a b))"
  unfolding spread_def
  by (induction b arbitrary: a) (auto simp: distinct_update)

lemma spread_keys_set: "fst ` set (spread a b) = fst ` set a \<union> fst ` set b"
  by (simp add: spread_def fold_update_dom)

subsection \<open>The upsert\<close>

text \<open>
  Claim C2. Dispatching \<^verbatim>\<open>setAssets\<close> twice with the same payload leaves the state that
  dispatching it once leaves: the same \<open>byId\<close>, keys in the same order, and the same \<open>ids\<close>
  array. This holds for every state and every payload.
\<close>

theorem setAssets_idempotent:
  "setAssets (setAssets state payload) payload = setAssets state payload"
  by (simp add: setAssets_def spread_idem array_from_set_idem)

text \<open>
  Claim C3, as stated, fails: the two dispatch orders leave the new identifiers in \<open>ids\<close>
  in different orders. The payloads below have disjoint identifiers, and the two final
  states differ in their \<open>ids\<close> arrays.
\<close>

theorem setAssets_order_counterexample:
  "set (ids payload_A) \<inter> set (ids payload_B) = {}
   \<and> fst ` set (byId payload_A) \<inter> fst ` set (byId payload_B) = {}
   \<and> ids (setAssets (setAssets initialState payload_A) payload_B)
       = [''eip155:1/erc20:0xaa'', ''eip155:1/erc20:0xbb'']
   \<and> ids (setAssets (setAssets initialState payload_B) payload_A)
       = [''eip155:1/erc20:0xbb'', ''eip155:1/erc20:0xaa'']
   \<and> setAssets (setAssets initialState payload_A) payload_B
       \<noteq> setAssets (setAssets initialState payload_B) payload_A"
  by (simp add: setAssets_def initialState_def payload_A_def payload_B_def
        array_from_set_def spread_def)

text \<open>
  Claim C3, amended. For payloads whose \<open>byId\<close> keys are disjoint, the two dispatch orders
  leave the same mapping from identifiers to records, and \<open>ids\<close> arrays that hold the same
  identifiers, each once: the arrays are permutations of each other.
\<close>

theorem setAssets_commute_disjoint:
  assumes "fst ` set (byId A) \<inter> fst ` set (byId B) = {}"
  shows "map_of (byId (setAssets (setAssets state A) B))
           = map_of (byId (setAssets (setAssets state B) A))
         \<and> mset (ids (setAssets (setAssets state A) B))
           = mset (ids (setAssets (setAssets state B) A))"
proof
  let ?s = "map_of (byId state)" and ?a = "map_of (rev (byId A))" and ?b = "map_of (rev (byId B))"
  have "dom ?a \<inter> dom ?b = {}"
    using assms by (simp add: dom_map_of_conv_image_fst)
  then have "?a ++ ?b = ?b ++ ?a"
    by (rule map_add_comm)
  then have "?s ++ (?a ++ ?b) = ?s ++ (?b ++ ?a)"
    by simp
  then have "(?s ++ ?a) ++ ?b = (?s ++ ?b) ++ ?a"
    by (simp only: map_add_assoc)
  then show "map_of (byId (setAssets (setAssets state A) B))
             = map_of (byId (setAssets (setAssets state B) A))"
    by (simp add: setAssets_def spread_map_of)
next
  let ?l = "ids (setAssets (setAssets state A) B)"
  let ?r = "ids (setAssets (setAssets state B) A)"
  have "distinct ?l" and "distinct ?r"
    by (simp_all add: setAssets_def array_from_set_distinct)
  moreover have "set ?l = set ?r"
    by (auto simp: setAssets_def array_from_set_set)
  ultimately show "mset ?l = mset ?r"
    by (simp add: set_eq_iff_mset_eq_distinct)
qed

theorem setAssets_commute_disjoint_witness:
  "fst ` set (byId payload_A) \<inter> fst ` set (byId payload_B) = {}
   \<and> map_of (byId (setAssets (setAssets initialState payload_A) payload_B))
       = map_of (byId (setAssets (setAssets initialState payload_B) payload_A))
   \<and> mset (ids (setAssets (setAssets initialState payload_A) payload_B))
       = mset (ids (setAssets (setAssets initialState payload_B) payload_A))"
proof -
  have h: "fst ` set (byId payload_A) \<inter> fst ` set (byId payload_B) = {}"
    by (simp add: payload_A_def payload_B_def)
  show ?thesis
    using h setAssets_commute_disjoint [OF h, of initialState] by simp
qed

subsection \<open>No identifier is listed twice\<close>

lemma setAssets_ids_distinct: "distinct (ids (setAssets state payload))"
  by (simp add: setAssets_def array_from_set_distinct)

lemma fetchAsset_fulfilled_ids_distinct:
  "distinct (ids state) \<Longrightarrow> distinct (ids (fetchAsset_fulfilled state arg payload))"
  by (simp add: fetchAsset_fulfilled_def)

lemma assets_reducer_ids_distinct:
  "distinct (ids state) \<Longrightarrow> distinct (ids (assets_reducer state action))"
  by (cases action)
     (simp_all add: setAssets_ids_distinct fetchAsset_fulfilled_ids_distinct
        fetchAsset_rejected_def)

lemma foldl_reducer_ids_distinct:
  "distinct (ids state) \<Longrightarrow> distinct (ids (foldl assets_reducer state actions))"
  by (induction actions arbitrary: state) (simp_all add: assets_reducer_ids_distinct)

text \<open>
  Claim C7. Starting from the initial state, after any sequence of \<^verbatim>\<open>setAssets\<close>
  dispatches and settled \<^verbatim>\<open>fetchAsset\<close> calls, \<open>ids\<close> lists no identifier twice.
\<close>

theorem ids_never_repeat: "distinct (ids (dispatch_all actions))"
  by (simp add: dispatch_all_def foldl_reducer_ids_distinct initialState_def)

section \<open>Properties of the decimal arithmetic\<close>

lemma bn_norm_Fin:
  "\<exists>m' s'. bn_norm m s = Fin m' s' \<and> s' \<le> s \<and> (of_int m' / 10 ^ s' :: rat) = of_int m / 10 ^ s"
proof (induction s arbitrary: m)
  case 0
  then show ?case by simp
next
  case (Suc s)
  show ?case
  proof (cases "m mod 10 = 0")
    case True
    then have m: "m = 10 * (m div 10)" by presburger
    obtain m' s' where h: "bn_norm (m div 10) s = Fin m' s'" "s' \<le> s"
      "(of_int m' / 10 ^ s' :: rat) = of_int (m div 10) / 10 ^ s"
      using Suc.IH [of "m div 10"] by blast
    have "(of_int m / 10 ^ Suc s :: rat) = of_int (10 * (m div 10)) / 10 ^ Suc s"
      using m by simp
    also have "\<dots> = of_int (m div 10) / 10 ^ s" by simp
    finally have "(of_int m' / 10 ^ s' :: rat) = of_int m / 10 ^ Suc s" using h(3) by simp
    then show ?thesis using True h by auto
  next
    case False
    then show ?thesis by simp
  qed
qed

lemma bn_value_norm: "bn_value (bn_norm m s) = Some (of_int m / 10 ^ s)"
  using bn_norm_Fin [of m s] by auto

lemma bn_value_times:
  "bn_value x = Some a \<Longrightarrow> bn_value y = Some b \<Longrightarrow> bn_value (bn_times x y) = Some (a * b)"
  by (cases x; cases y) (auto simp: bn_value_norm power_add)

lemma half_up_exact:
  fixes c d :: int
  assumes "0 < d"
  shows "(2 * (c * d) + d) div (2 * d) = c"
proof -
  have "(2 * (c * d) + d) = d * (2 * c + 1)" by (simp add: algebra_simps)
  then have "(2 * (c * d) + d) div (2 * d) = (d * (2 * c + 1)) div (d * 2)"
    by (simp add: mult.commute)
  also have "\<dots> = (2 * c + 1) div 2" using assms by simp
  also have "\<dots> = c" by simp
  finally show ?thesis .
qed

lemma round_quotient_pow10:
  assumes "k \<le> DECIMAL_PLACES"
  shows "bn_value (round_quotient m (10 ^ k)) = Some (of_int m / 10 ^ k)"
proof -
  let ?D = "DECIMAL_PLACES"
  let ?c = "\<bar>m\<bar> * 10 ^ (?D - k)"
  have split: "(10::int) ^ ?D = 10 ^ (?D - k) * 10 ^ k"
    using assms by (simp flip: power_add)
  have abs10: "\<bar>10 ^ k :: int\<bar> = 10 ^ k" by simp
  have e1: "2 * \<bar>m\<bar> * 10 ^ ?D + (10 ^ k :: int) = 2 * (?c * 10 ^ k) + 10 ^ k"
    by (simp only: split mult.assoc)
  have "(2 * \<bar>m\<bar> * 10 ^ ?D + \<bar>10 ^ k :: int\<bar>) div (2 * \<bar>10 ^ k\<bar>)
        = (2 * (?c * 10 ^ k) + 10 ^ k) div (2 * 10 ^ k)"
    by (simp only: abs10 e1)
  also have "\<dots> = ?c"
    by (rule half_up_exact) simp
  finally have q: "(2 * \<bar>m\<bar> * 10 ^ ?D + \<bar>10 ^ k :: int\<bar>) div (2 * \<bar>10 ^ k\<bar>) = ?c" .
  have sgn: "(if m < 0 then - ?c else ?c) = m * 10 ^ (?D - k)"
    by (simp add: abs_if)
  have "round_quotient m (10 ^ k) = bn_norm (m * 10 ^ (?D - k)) ?D"
    unfolding round_quotient_def Let_def q using sgn by simp
  moreover have "(of_int (m * 10 ^ (?D - k)) / 10 ^ ?D :: rat) = of_int m / 10 ^ k"
  proof -
    have "(10::rat) ^ ?D = 10 ^ (?D - k) * 10 ^ k"
      using assms by (simp flip: power_add)
    then show ?thesis by simp
  qed
  ultimately show ?thesis by (simp add: bn_value_norm)
qed

lemma bn_div_precision_exact:
  assumes "s + p \<le> DECIMAL_PLACES"
  shows "bn_value (bn_div (Fin m s) (precision_divisor (Some p))) = Some (of_int m / 10 ^ s / 10 ^ p)"
proof -
  have "bn_div (Fin m s) (precision_divisor (Some p)) = round_quotient m (10 ^ (p + s))"
    by (simp add: power_add)
  moreover have "p + s \<le> DECIMAL_PLACES" using assms by simp
  then have "bn_value (round_quotient m (10 ^ (p + s))) = Some (of_int m / 10 ^ (p + s))"
    by (rule round_quotient_pow10)
  moreover have "(of_int m / 10 ^ (p + s) :: rat) = of_int m / 10 ^ s / 10 ^ p"
    by (simp add: power_add)
  ultimately show ?thesis
    by (simp only:)
qed

lemma bn_div_bnOrZero_exact:
  assumes "s + p \<le> DECIMAL_PLACES"
  shows "bn_value (bn_div (bnOrZero (Some (Fin m s))) (precision_divisor (Some p)))
         = Some (of_int m / 10 ^ s / 10 ^ p)"
proof -
  obtain m' s' where h: "bn_norm m s = Fin m' s'" "s' \<le> s"
    "(of_int m' / 10 ^ s' :: rat) = of_int m / 10 ^ s"
    using bn_norm_Fin [of m s] by blast
  have "s' + p \<le> DECIMAL_PLACES" using assms h(2) by simp
  then have "bn_value (bn_div (Fin m' s') (precision_divisor (Some p))) = Some (of_int m' / 10 ^ s' / 10 ^ p)"
    by (rule bn_div_precision_exact)
  then show ?thesis using h by simp
qed

text \<open>
  The amount is exact whenever the two quotients have at most \<open>DECIMAL_PLACES\<close> decimal
  places: \<open>sb\<close> and \<open>sp\<close> are the decimal places of the balance and of the price per
  share.
\<close>

lemma makeVaultFiatAmount_exact_places:
  assumes "map_of assets (vaultCaip19 vault) = Some asset"
    and "balance vault = Some (Fin b sb)"
    and "pricePerShare vault = Fin pps sp"
    and "sb + precision asset \<le> DECIMAL_PLACES"
    and "sp + precision asset \<le> DECIMAL_PLACES"
    and "map_of marketData_byId (tokenCaip19 vault) = Some m"
    and "price m = Some (Fin pm ps)"
  shows "bn_value (makeVaultFiatAmount assets marketData_byId vault)
         = Some ((of_int b / 10 ^ sb / 10 ^ precision asset)
                 * (of_int pps / 10 ^ sp / 10 ^ precision asset)
                 * (of_int pm / 10 ^ ps))"
proof -
  let ?d = "precision_divisor (Some (precision asset))"
  have 1: "bn_value (bn_div (bnOrZero (Some (Fin b sb))) ?d) = Some (of_int b / 10 ^ sb / 10 ^ precision asset)"
    using assms(4) by (rule bn_div_bnOrZero_exact)
  have 2: "bn_value (bn_div (bnOrZero (Some (Fin pps sp))) ?d) = Some (of_int pps / 10 ^ sp / 10 ^ precision asset)"
    using assms(5) by (rule bn_div_bnOrZero_exact)
  have 3: "bn_value (bnOrZero (Some (Fin pm ps))) = Some (of_int pm / 10 ^ ps)"
    by (simp add: bn_value_norm)
  have "makeVaultFiatAmount assets marketData_byId vault
        = bn_times (bn_times (bn_div (bnOrZero (Some (Fin b sb))) ?d)
                             (bn_div (bnOrZero (Some (Fin pps sp))) ?d))
                   (bnOrZero (Some (Fin pm ps)))"
    using assms(1,2,3,6,7) by (simp add: makeVaultFiatAmount_def)
  then show ?thesis
    using bn_value_times [OF bn_value_times [OF 1 2] 3] by simp
qed


text \<open>
  Claim C1. For a held vault whose asset has precision \<open>p\<close>, at most 18 as the
  specification has it, with the raw balance and the raw price per share in smallest units
  and a market price for the underlying token, the fiat amount is exactly
  (rawBalance / 10^p) * (rawPricePerShare / 10^p) * price.
\<close>

theorem makeVaultFiatAmount_exact:
  assumes "map_of assets (vaultCaip19 vault) = Some asset"
    and "precision asset \<le> 18"
    and "balance vault = Some (Fin rawBalance 0)"
    and "pricePerShare vault = Fin rawPricePerShare 0"
    and "map_of marketData_byId (tokenCaip19 vault) = Some m"
    and "price m = Some (Fin pm ps)"
  shows "bn_value (makeVaultFiatAmount assets marketData_byId vault)
         = Some ((of_int rawBalance / 10 ^ precision asset)
                 * (of_int rawPricePerShare / 10 ^ precision asset)
                 * (of_int pm / 10 ^ ps))"
proof -
  have places: "0 + precision asset \<le> DECIMAL_PLACES"
    using assms(2) by (simp add: DECIMAL_PLACES_def)
  from makeVaultFiatAmount_exact_places [OF assms(1) assms(3) assms(4) places places assms(5) assms(6)]
  show ?thesis by simp
qed

text \<open>The scenario of the specification: precision 18, raw balance 1000000000000000000, raw
  price per share 2000000000000000000 and price 10 give exactly 20.\<close>

theorem makeVaultFiatAmount_exact_witness:
  "map_of scenario_assets (vaultCaip19 scenario_vault) = Some scenario_asset
   \<and> balance scenario_vault = Some (Fin 1000000000000000000 0)
   \<and> pricePerShare scenario_vault = Fin 2000000000000000000 0
   \<and> precision scenario_asset \<le> 18
   \<and> map_of scenario_marketData (tokenCaip19 scenario_vault) = Some \<lparr> price = Some (Fin 10 0) \<rparr>
   \<and> bn_value (makeVaultFiatAmount scenario_assets scenario_marketData scenario_vault) = Some 20
   \<and> makeVaultFiatAmount scenario_assets scenario_marketData scenario_vault = Fin 20 0
   \<and> bn_toString (makeVaultFiatAmount scenario_assets scenario_marketData scenario_vault) = ''20''"
proof -
  have h1: "map_of scenario_assets (vaultCaip19 scenario_vault) = Some scenario_asset"
    by (simp add: scenario_assets_def scenario_vault_def)
  have h2: "balance scenario_vault = Some (Fin 1000000000000000000 0)"
    by (simp add: scenario_vault_def)
  have h3: "pricePerShare scenario_vault = Fin 2000000000000000000 0"
    by (simp add: scenario_vault_def)
  have h4: "precision scenario_asset \<le> 18"
    by (simp add: scenario_asset_def)
  have h6: "map_of scenario_marketData (tokenCaip19 scenario_vault) = Some \<lparr> price = Some (Fin 10 0) \<rparr>"
    by (simp add: scenario_marketData_def scenario_vault_def)
  have h7: "price \<lparr> price = Some (Fin 10 0) \<rparr> = Some (Fin 10 0)"
    by simp
  have v: "bn_value (makeVaultFiatAmount scenario_assets scenario_marketData scenario_vault) = Some 20"
    using makeVaultFiatAmount_exact [OF h1 h4 h2 h3 h6 h7]
    by (simp add: scenario_asset_def)
  have e: "makeVaultFiatAmount scenario_assets scenario_marketData scenario_vault = Fin 20 0"
    by code_simp
  have s: "bn_toString (Fin 20 0) = ''20''"
    by code_simp
  show ?thesis using h1 h2 h3 h4 h6 v e s by simp
qed

section \<open>Properties of the vault computation\<close>

subsection \<open>The loop over the supported vaults\<close>

lemma update_set_cases:
  "(a, e) \<in> set (AList.update k v al) \<Longrightarrow> (a, e) = (k, v) \<or> (a, e) \<in> set al"
  by (induction al) (auto split: if_splits)

lemma getYearnVault_entry_held:
  assumes "getYearnVault_entry toCAIP19 balances yearn vault = Inr (Some entry)"
  shows "toCAIP19 (chain vault) MAINNET (Some ERC20) (Some (vaultAddress vault)) = Inr (vaultCaip19 entry)
         \<and> map_of balances (vaultCaip19 entry) \<noteq> None
         \<and> vaultAddress entry = vaultAddress vault"
  using assms
  by (auto simp: getYearnVault_entry_def split: sum.splits option.splits)

lemma getYearnVaults_loop_entries:
  "getYearnVaults_loop toCAIP19 balances yearn vs acc = Inr out \<Longrightarrow> (a, e) \<in> set out \<Longrightarrow>
   (a, e) \<in> set acc
   \<or> (\<exists>v \<in> set vs. getYearnVault_entry toCAIP19 balances yearn v = Inr (Some e) \<and> a = vaultAddress v)"
proof (induction vs arbitrary: acc)
  case Nil
  then show ?case by simp
next
  case (Cons v vs)
  show ?case
  proof (cases "getYearnVault_entry toCAIP19 balances yearn v")
    case (Inl err)
    with Cons.prems show ?thesis by simp
  next
    case (Inr r)
    show ?thesis
    proof (cases r)
      case None
      with Inr Cons.prems have "getYearnVaults_loop toCAIP19 balances yearn vs acc = Inr out"
        by simp
      from Cons.IH [OF this Cons.prems(2)] show ?thesis by auto
    next
      case (Some entry)
      with Inr Cons.prems have
        "getYearnVaults_loop toCAIP19 balances yearn vs (AList.update (vaultAddress v) entry acc) = Inr out"
        by simp
      from Cons.IH [OF this Cons.prems(2)]
      show ?thesis using Inr Some by (auto dest: update_set_cases)
    qed
  qed
qed

text \<open>
  Claim C4. When the vault computation returns, a vault definition of the supported list
  for whose vault-token identifier the wallet has no balance entry is not in the result: no
  entry carries its identifier, and there is no entry under its vault address (given that
  the list has no other definition with the same address on another chain, which would own
  that key).
\<close>

theorem unheld_vault_excluded:
  assumes "getYearnVaults toCAIP19 SUPPORTED_VAULTS balances yearn = Inr out"
    and "vault \<in> set SUPPORTED_VAULTS"
    and "toCAIP19 (chain vault) MAINNET (Some ERC20) (Some (vaultAddress vault)) = Inr c"
    and "map_of balances c = None"
  shows "(\<forall>e \<in> snd ` set out. vaultCaip19 e \<noteq> c)
         \<and> ((\<forall>w \<in> set SUPPORTED_VAULTS. vaultAddress w = vaultAddress vault \<longrightarrow> chain w = chain vault)
              \<longrightarrow> map_of out (vaultAddress vault) = None)"
proof -
  have src: "\<exists>v \<in> set SUPPORTED_VAULTS.
               getYearnVault_entry toCAIP19 balances yearn v = Inr (Some e) \<and> a = vaultAddress v"
    if "(a, e) \<in> set out" for a e
    using getYearnVaults_loop_entries [OF assms(1) [unfolded getYearnVaults_def] that] by simp
  have first: "vaultCaip19 e \<noteq> c" if "e \<in> snd ` set out" for e
  proof -
    from that obtain a where "(a, e) \<in> set out" by auto
    from src [OF this] obtain v where "getYearnVault_entry toCAIP19 balances yearn v = Inr (Some e)"
      by blast
    then have "map_of balances (vaultCaip19 e) \<noteq> None"
      by (simp add: getYearnVault_entry_held)
    with assms(4) show ?thesis by auto
  qed
  have second: "map_of out (vaultAddress vault) = None"
    if same: "\<forall>w \<in> set SUPPORTED_VAULTS. vaultAddress w = vaultAddress vault \<longrightarrow> chain w = chain vault"
  proof (rule ccontr)
    assume "map_of out (vaultAddress vault) \<noteq> None"
    then obtain e where "map_of out (vaultAddress vault) = Some e" by auto
    then have mem: "(vaultAddress vault, e) \<in> set out" by (rule map_of_SomeD)
    from src [OF mem] obtain w where w: "w \<in> set SUPPORTED_VAULTS"
      "getYearnVault_entry toCAIP19 balances yearn w = Inr (Some e)" "vaultAddress vault = vaultAddress w"
      by blast
    from same w have "chain w = chain vault" by simp
    moreover from getYearnVault_entry_held [OF w(2)]
    have "toCAIP19 (chain w) MAINNET (Some ERC20) (Some (vaultAddress w)) = Inr (vaultCaip19 e)"
      by simp
    ultimately have "vaultCaip19 e = c" using assms(3) w(3) by simp
    moreover have "e \<in> snd ` set out" using mem by force
    ultimately show False using first by blast
  qed
  show ?thesis using first second by blast
qed


lemma getYearnVaults_loop_untouched:
  "getYearnVaults_loop toCAIP19 balances yearn vs acc = Inr out \<Longrightarrow>
   a \<notin> vaultAddress ` set vs \<Longrightarrow> map_of out a = map_of acc a"
proof (induction vs arbitrary: acc)
  case Nil
  then show ?case by simp
next
  case (Cons v vs)
  from Cons.prems(2) have ne: "a \<noteq> vaultAddress v" and rest: "a \<notin> vaultAddress ` set vs"
    by auto
  show ?case
  proof (cases "getYearnVault_entry toCAIP19 balances yearn v")
    case (Inl err)
    with Cons.prems show ?thesis by simp
  next
    case (Inr r)
    show ?thesis
    proof (cases r)
      case None
      with Inr Cons.prems have "getYearnVaults_loop toCAIP19 balances yearn vs acc = Inr out"
        by simp
      from Cons.IH [OF this rest] show ?thesis .
    next
      case (Some entry)
      with Inr Cons.prems have
        "getYearnVaults_loop toCAIP19 balances yearn vs (AList.update (vaultAddress v) entry acc) = Inr out"
        by simp
      from Cons.IH [OF this rest] show ?thesis using ne by (simp add: update_conv')
    qed
  qed
qed

lemma getYearnVaults_loop_stores:
  "getYearnVaults_loop toCAIP19 balances yearn vs acc = Inr out \<Longrightarrow>
   distinct (map vaultAddress vs) \<Longrightarrow> v \<in> set vs \<Longrightarrow>
   getYearnVault_entry toCAIP19 balances yearn v = Inr (Some e) \<Longrightarrow>
   map_of out (vaultAddress v) = Some e"
proof (induction vs arbitrary: acc)
  case Nil
  then show ?case by simp
next
  case (Cons w vs)
  from Cons.prems(2) have d: "distinct (map vaultAddress vs)"
    and fresh: "vaultAddress w \<notin> vaultAddress ` set vs" by auto
  show ?case
  proof (cases "v = w")
    case True
    with Cons.prems have
      run: "getYearnVaults_loop toCAIP19 balances yearn vs (AList.update (vaultAddress w) e acc) = Inr out"
      by simp
    from getYearnVaults_loop_untouched [OF run fresh] show ?thesis
      using True by (simp add: update_conv')
  next
    case False
    with Cons.prems(3) have v: "v \<in> set vs" by simp
    show ?thesis
    proof (cases "getYearnVault_entry toCAIP19 balances yearn w")
      case (Inl err)
      with Cons.prems show ?thesis by simp
    next
      case (Inr r)
      show ?thesis
      proof (cases r)
        case None
        with Inr Cons.prems have "getYearnVaults_loop toCAIP19 balances yearn vs acc = Inr out"
          by simp
        from Cons.IH [OF this d v Cons.prems(4)] show ?thesis .
      next
        case (Some entry)
        with Inr Cons.prems have
          "getYearnVaults_loop toCAIP19 balances yearn vs (AList.update (vaultAddress w) entry acc) = Inr out"
          by simp
        from Cons.IH [OF this d v Cons.prems(4)] show ?thesis .
      qed
    qed
  qed
qed

text \<open>The call returns when nothing throws or rejects.\<close>

lemma getYearnVaults_loop_completes:
  "\<forall>v \<in> set vs. \<forall>err. getYearnVault_entry toCAIP19 balances yearn v \<noteq> Inl err \<Longrightarrow>
   \<exists>out. getYearnVaults_loop toCAIP19 balances yearn vs acc = Inr out"
proof (induction vs arbitrary: acc)
  case Nil
  then show ?case by simp
next
  case (Cons v vs)
  then have rest: "\<forall>v \<in> set vs. \<forall>err. getYearnVault_entry toCAIP19 balances yearn v \<noteq> Inl err"
    by simp
  show ?case
  proof (cases "getYearnVault_entry toCAIP19 balances yearn v")
    case (Inl err)
    with Cons.prems show ?thesis by simp
  next
    case (Inr r)
    then show ?thesis using Cons.IH [OF rest] by (cases r) simp_all
  qed
qed

text \<open>A throwing codec or a rejected fetch, for any vault of the list, rejects the call.\<close>

lemma getYearnVaults_loop_rejects:
  "v \<in> set vs \<Longrightarrow> getYearnVault_entry toCAIP19 balances yearn v = Inl err \<Longrightarrow>
   \<exists>err'. getYearnVaults_loop toCAIP19 balances yearn vs acc = Inl err'"
proof (induction vs arbitrary: acc)
  case Nil
  then show ?case by simp
next
  case (Cons w vs)
  show ?case
  proof (cases "getYearnVault_entry toCAIP19 balances yearn w")
    case (Inl e)
    then show ?thesis by simp
  next
    case (Inr r)
    with Cons.prems have "v \<in> set vs" by auto
    from Cons.IH [OF this Cons.prems(2)] show ?thesis using Inr by (cases r) simp_all
  qed
qed

lemma bn_norm_zero: "bn_norm 0 s = Fin 0 0"
  by (induction s) simp_all

lemma bnOrZero_Fin: "\<exists>m s. bnOrZero v = Fin m s"
proof (cases v)
  case None
  then show ?thesis by simp
next
  case (Some x)
  then show ?thesis using bn_norm_Fin by (cases x) (simp_all, blast)
qed

lemma bn_div_precision_Fin: "\<exists>m' s'. bn_div (Fin m s) (precision_divisor (Some p)) = Fin m' s'"
  using bn_norm_Fin by (simp add: round_quotient_def Let_def) blast

lemma bn_div_zero_precision: "bn_div (Fin 0 0) (precision_divisor (Some p)) = Fin 0 0"
  by (simp add: round_quotient_def bn_norm_zero)

lemma bn_times_zero_right: "bn_times (Fin m s) (Fin 0 0) = Fin 0 0"
  by (simp add: bn_norm_zero)

lemma bn_times_zero_left: "bn_times (Fin 0 0) (Fin m s) = Fin 0 0"
  by (simp add: bn_norm_zero)

lemma makeVaultFiatAmount_zero_pricePerShare:
  assumes "pricePerShare vault = Fin 0 0" and "map_of assets (vaultCaip19 vault) = Some asset"
  shows "makeVaultFiatAmount assets marketData_byId vault = Fin 0 0"
proof -
  let ?d = "precision_divisor (Some (precision asset))"
  obtain mb sb where b: "bnOrZero (balance vault) = Fin mb sb"
    using bnOrZero_Fin by blast
  obtain mq sq where q: "bn_div (Fin mb sb) ?d = Fin mq sq"
    using bn_div_precision_Fin by blast
  obtain mp sp where p: "bnOrZero (case map_of marketData_byId (tokenCaip19 vault) of
                           None \<Rightarrow> None | Some m \<Rightarrow> price m) = Fin mp sp"
    using bnOrZero_Fin by blast
  have "makeVaultFiatAmount assets marketData_byId vault
        = bn_times (bn_times (Fin mq sq) (bn_div (Fin 0 0) ?d)) (Fin mp sp)"
    using assms b q p by (simp add: makeVaultFiatAmount_def)
  then show ?thesis
    by (simp only: bn_div_zero_precision bn_times_zero_right bn_times_zero_left)
qed

lemma bn_toString_zero: "bn_toString (Fin 0 0) = ''0''"
  by simp

lemma bn_div_NaN: "bn_div (bnOrZero v) NaN = NaN"
  using bnOrZero_Fin [of v] by auto

lemma makeVaultFiatAmount_unknown_asset:
  "map_of assets (vaultCaip19 vault) = None \<Longrightarrow>
   makeVaultFiatAmount assets marketData_byId vault = NaN"
  by (simp add: makeVaultFiatAmount_def bn_div_NaN)

text \<open>A vault with price per share zero adds zero to the total, whatever the catalog has.\<close>

lemma zero_pricePerShare_contribution:
  assumes "pricePerShare vault = Fin 0 0"
  shows "bnOrZero (Some (makeVaultFiatAmount assets marketData_byId vault)) = Fin 0 0"
proof (cases "map_of assets (vaultCaip19 vault)")
  case None
  then show ?thesis by (simp add: makeVaultFiatAmount_unknown_asset)
next
  case (Some asset)
  from makeVaultFiatAmount_zero_pricePerShare [OF assms this] show ?thesis by simp
qed

subsection \<open>Held vaults, missing prices\<close>

lemmas example_defs =
  getYearnVaults_def getYearnVault_entry_def example_toCAIP19_def example_vaults_def
  vault_usdc_def vault_dai_def vault_weth_def example_balances_def
  usdc_entry_def dai_entry_def

text \<open>The example wallet does not hold the third vault, which is not in the result.\<close>

theorem unheld_vault_excluded_witness:
  "getYearnVaults example_toCAIP19 example_vaults example_balances (Some yearn_answering)
     = Inr example_held
   \<and> vault_weth \<in> set example_vaults
   \<and> example_toCAIP19 (chain vault_weth) MAINNET (Some ERC20) (Some (vaultAddress vault_weth))
     = Inr ''eip155:1/erc20:0xa258''
   \<and> map_of example_balances ''eip155:1/erc20:0xa258'' = None
   \<and> ''eip155:1/erc20:0xa258'' \<notin> vaultCaip19 ` snd ` set example_held
   \<and> map_of example_held (vaultAddress vault_weth) = None"
proof -
  have h1: "getYearnVaults example_toCAIP19 example_vaults example_balances (Some yearn_answering)
            = Inr example_held"
    by (simp add: example_defs yearn_answering_def example_held_def)
  have h2: "vault_weth \<in> set example_vaults"
    by (simp add: example_vaults_def)
  have h3: "example_toCAIP19 (chain vault_weth) MAINNET (Some ERC20) (Some (vaultAddress vault_weth))
            = Inr ''eip155:1/erc20:0xa258''"
    by (simp add: example_toCAIP19_def vault_weth_def)
  have h4: "map_of example_balances ''eip155:1/erc20:0xa258'' = None"
    by (simp add: example_balances_def)
  have same: "\<forall>w \<in> set example_vaults.
                vaultAddress w = vaultAddress vault_weth \<longrightarrow> chain w = chain vault_weth"
    by (simp add: example_vaults_def vault_usdc_def vault_dai_def vault_weth_def)
  from unheld_vault_excluded [OF h1 h2 h3 h4] same
  have "(\<forall>e \<in> snd ` set example_held. vaultCaip19 e \<noteq> ''eip155:1/erc20:0xa258'')
        \<and> map_of example_held (vaultAddress vault_weth) = None"
    by blast
  then have "''eip155:1/erc20:0xa258'' \<notin> vaultCaip19 ` snd ` set example_held
             \<and> map_of example_held (vaultAddress vault_weth) = None"
    by auto
  with h1 h2 h3 h4 show ?thesis by simp
qed

text \<open>
  Claim C5, as stated, fails for a fetch that rejects: the wallet holds the first two
  vaults, the fetch for the first one rejects, and the whole computation rejects. Neither
  vault is produced, and the stored vaults stay empty.
\<close>

theorem rejected_pricePerShare_counterexample:
  "map_of example_balances ''eip155:1/erc20:0x5f18'' \<noteq> None
   \<and> map_of example_balances ''eip155:1/erc20:0xda81'' \<noteq> None
   \<and> YearnVaultApi.pricePerShare yearn_rejecting ''0x5f18'' = Inl (Thrown ''call revert exception'')
   \<and> getYearnVaults example_toCAIP19 example_vaults example_balances (Some yearn_rejecting)
       = Inl (Thrown ''call revert exception'')
   \<and> loadVaults example_toCAIP19 example_vaults True example_balances (Some yearn_rejecting) []
       = ([], [])"
  by (simp add: loadVaults_def example_defs yearn_rejecting_def)

text \<open>
  Claim C5, amended. For a held vault of the list: when the provider is absent or
  resolves to no value for it (and no codec call throws and no fetch rejects), the
  computation returns, the vault is in the result with \<open>pricePerShare\<close> zero and the
  balance of the wallet, its fiat amount adds zero to the total and is rendered
  \<^verbatim>\<open>0\<close> when its asset record is in the catalog, and every held vault of the list is in
  the result with the entry computed for it (the vault addresses of the list are distinct,
  so the entry under an address is that vault's). When instead the fetch for the vault
  rejects, the whole computation rejects, and the effect leaves the stored vaults as they
  were and dispatches nothing.
\<close>

theorem missing_pricePerShare_degrades:
  assumes v: "vault \<in> set SUPPORTED_VAULTS"
    and vc: "toCAIP19 (chain vault) MAINNET (Some ERC20) (Some (vaultAddress vault)) = Inr vc"
    and held: "map_of balances vc = Some account"
  shows "((\<forall>w \<in> set SUPPORTED_VAULTS. \<forall>err. getYearnVault_entry toCAIP19 balances yearn w \<noteq> Inl err)
            \<and> distinct (map vaultAddress SUPPORTED_VAULTS)
            \<and> (yearn = None
                \<or> (\<exists>y. yearn = Some y \<and> YearnVaultApi.pricePerShare y (vaultAddress vault) = Inr None))
          \<longrightarrow> (\<exists>out entry.
                 getYearnVaults toCAIP19 SUPPORTED_VAULTS balances yearn = Inr out
                 \<and> map_of out (vaultAddress vault) = Some entry
                 \<and> pricePerShare entry = Fin 0 0
                 \<and> balance entry = Account.balance account
                 \<and> bnOrZero (Some (makeVaultFiatAmount assets marketData_byId entry)) = Fin 0 0
                 \<and> (map_of assets (vaultCaip19 entry) \<noteq> None \<longrightarrow>
                      makeVaultFiatAmount assets marketData_byId entry = Fin 0 0
                      \<and> fiatAmount (mergeVault assets marketData_byId yearn (vaultAddress vault) entry)
                          = ''0'')
                 \<and> (\<forall>w \<in> set SUPPORTED_VAULTS. \<forall>e.
                       getYearnVault_entry toCAIP19 balances yearn w = Inr (Some e) \<longrightarrow>
                       map_of out (vaultAddress w) = Some e)))
         \<and> ((\<exists>y err. yearn = Some y \<and> YearnVaultApi.pricePerShare y (vaultAddress vault) = Inl err)
          \<longrightarrow> (\<exists>err. getYearnVaults toCAIP19 SUPPORTED_VAULTS balances yearn = Inl err)
              \<and> (\<forall>ready stored.
                    loadVaults toCAIP19 SUPPORTED_VAULTS ready balances yearn stored = (stored, [])))"
proof (intro conjI impI)
  assume a: "(\<forall>w \<in> set SUPPORTED_VAULTS. \<forall>err. getYearnVault_entry toCAIP19 balances yearn w \<noteq> Inl err)
            \<and> distinct (map vaultAddress SUPPORTED_VAULTS)
            \<and> (yearn = None
                \<or> (\<exists>y. yearn = Some y \<and> YearnVaultApi.pricePerShare y (vaultAddress vault) = Inr None))"
  then have ok: "\<forall>w \<in> set SUPPORTED_VAULTS. \<forall>err. getYearnVault_entry toCAIP19 balances yearn w \<noteq> Inl err"
    and d: "distinct (map vaultAddress SUPPORTED_VAULTS)"
    and nv: "yearn = None
             \<or> (\<exists>y. yearn = Some y \<and> YearnVaultApi.pricePerShare y (vaultAddress vault) = Inr None)"
    by blast+
  from ok obtain out where out: "getYearnVaults toCAIP19 SUPPORTED_VAULTS balances yearn = Inr out"
    unfolding getYearnVaults_def using getYearnVaults_loop_completes by blast
  from ok v have noerr: "\<forall>err. getYearnVault_entry toCAIP19 balances yearn vault \<noteq> Inl err"
    by blast
  obtain tc where tc: "toCAIP19 (chain vault) MAINNET (Some ERC20) (Some (tokenAddress vault)) = Inr tc"
    using noerr vc by (cases "toCAIP19 (chain vault) MAINNET (Some ERC20) (Some (tokenAddress vault))")
      (auto simp: getYearnVault_entry_def)
  have fetch: "(case yearn of None \<Rightarrow> Inr None
                | Some y \<Rightarrow> YearnVaultApi.pricePerShare y (vaultAddress vault)) = Inr None"
    using nv by auto
  define entry where "entry =
     \<lparr> chain = chain vault, vaultAddress = vaultAddress vault, tokenAddress = tokenAddress vault,
       balance = Account.balance account, vaultCaip19 = vc, tokenCaip19 = tc,
       pricePerShare = Fin 0 0 \<rparr>"
  have e: "getYearnVault_entry toCAIP19 balances yearn vault = Inr (Some entry)"
    using vc tc held fetch by (simp add: getYearnVault_entry_def entry_def)
  have stored: "map_of out (vaultAddress vault) = Some entry"
    using getYearnVaults_loop_stores [OF out [unfolded getYearnVaults_def] d v e] .
  have pps: "pricePerShare entry = Fin 0 0" and bal: "balance entry = Account.balance account"
    by (simp_all add: entry_def)
  have total: "bnOrZero (Some (makeVaultFiatAmount assets marketData_byId entry)) = Fin 0 0"
    using pps by (rule zero_pricePerShare_contribution)
  have fiat: "makeVaultFiatAmount assets marketData_byId entry = Fin 0 0
              \<and> fiatAmount (mergeVault assets marketData_byId yearn (vaultAddress vault) entry) = ''0''"
    if "map_of assets (vaultCaip19 entry) \<noteq> None"
  proof -
    from that obtain asset where "map_of assets (vaultCaip19 entry) = Some asset" by auto
    from makeVaultFiatAmount_zero_pricePerShare [OF pps this]
    have z: "makeVaultFiatAmount assets marketData_byId entry = Fin 0 0" .
    then show ?thesis
      by (simp add: mergeVault_def Let_def EarnVault.defs MergedEarnVault.defs)
  qed
  have all: "map_of out (vaultAddress w) = Some e'"
    if "w \<in> set SUPPORTED_VAULTS" "getYearnVault_entry toCAIP19 balances yearn w = Inr (Some e')"
    for w e'
    using getYearnVaults_loop_stores [OF out [unfolded getYearnVaults_def] d that] .
  show "\<exists>out entry.
          getYearnVaults toCAIP19 SUPPORTED_VAULTS balances yearn = Inr out
          \<and> map_of out (vaultAddress vault) = Some entry
          \<and> pricePerShare entry = Fin 0 0
          \<and> balance entry = Account.balance account
          \<and> bnOrZero (Some (makeVaultFiatAmount assets marketData_byId entry)) = Fin 0 0
          \<and> (map_of assets (vaultCaip19 entry) \<noteq> None \<longrightarrow>
               makeVaultFiatAmount assets marketData_byId entry = Fin 0 0
               \<and> fiatAmount (mergeVault assets marketData_byId yearn (vaultAddress vault) entry)
                   = ''0'')
          \<and> (\<forall>w \<in> set SUPPORTED_VAULTS. \<forall>e.
                getYearnVault_entry toCAIP19 balances yearn w = Inr (Some e) \<longrightarrow>
                map_of out (vaultAddress w) = Some e)"
    using out stored pps bal total fiat all by blast
next
  assume "\<exists>y err. yearn = Some y \<and> YearnVaultApi.pricePerShare y (vaultAddress vault) = Inl err"
  then obtain y err where y: "yearn = Some y"
    "YearnVaultApi.pricePerShare y (vaultAddress vault) = Inl err" by blast
  have "\<exists>err'. getYearnVault_entry toCAIP19 balances yearn vault = Inl err'"
    using vc held y
    by (cases "toCAIP19 (chain vault) MAINNET (Some ERC20) (Some (tokenAddress vault))")
      (simp_all add: getYearnVault_entry_def)
  then obtain err' where "getYearnVault_entry toCAIP19 balances yearn vault = Inl err'" by blast
  from getYearnVaults_loop_rejects [OF v this]
  obtain err'' where r: "getYearnVaults toCAIP19 SUPPORTED_VAULTS balances yearn = Inl err''"
    unfolding getYearnVaults_def by blast
  then show "\<exists>err. getYearnVaults toCAIP19 SUPPORTED_VAULTS balances yearn = Inl err" by blast
  show "\<forall>ready stored.
          loadVaults toCAIP19 SUPPORTED_VAULTS ready balances yearn stored = (stored, [])"
    using r by (simp add: loadVaults_def)
qed

text \<open>With the provider that has no price per share for the first vault, both held vaults
  are computed, and the first one has amount zero. With the provider whose fetch for the
  first vault rejects, vaults stored by an earlier run stay as they are.\<close>

theorem missing_pricePerShare_degrades_witness:
  "distinct (map vaultAddress example_vaults)
   \<and> vault_usdc \<in> set example_vaults
   \<and> map_of example_balances ''eip155:1/erc20:0x5f18''
       = Some \<lparr> Account.balance = Some (Fin 1000000000000000000 0) \<rparr>
   \<and> YearnVaultApi.pricePerShare yearn_no_value (vaultAddress vault_usdc) = Inr None
   \<and> getYearnVaults example_toCAIP19 example_vaults example_balances (Some yearn_no_value)
       = Inr example_held_no_value
   \<and> map_of example_held_no_value ''0x5f18'' = Some (usdc_entry (Fin 0 0))
   \<and> map_of example_held_no_value ''0xda81'' = Some dai_entry
   \<and> makeVaultFiatAmount scenario_assets scenario_marketData (usdc_entry (Fin 0 0)) = Fin 0 0
   \<and> fiatAmount (mergeVault scenario_assets scenario_marketData (Some yearn_no_value) ''0x5f18''
                   (usdc_entry (Fin 0 0))) = ''0''
   \<and> YearnVaultApi.pricePerShare yearn_rejecting (vaultAddress vault_usdc)
       = Inl (Thrown ''call revert exception'')
   \<and> loadVaults example_toCAIP19 example_vaults True example_balances (Some yearn_rejecting)
        example_held = (example_held, [])"
proof -
  have ok: "\<forall>w \<in> set example_vaults. \<forall>err.
              getYearnVault_entry example_toCAIP19 example_balances (Some yearn_no_value) w \<noteq> Inl err"
    by (simp add: example_defs yearn_no_value_def)
  have d: "distinct (map vaultAddress example_vaults)"
    by (simp add: example_vaults_def vault_usdc_def vault_dai_def vault_weth_def)
  have v: "vault_usdc \<in> set example_vaults"
    by (simp add: example_vaults_def)
  have vc: "example_toCAIP19 (chain vault_usdc) MAINNET (Some ERC20) (Some (vaultAddress vault_usdc))
            = Inr ''eip155:1/erc20:0x5f18''"
    by (simp add: example_toCAIP19_def vault_usdc_def)
  have held: "map_of example_balances ''eip155:1/erc20:0x5f18''
              = Some \<lparr> Account.balance = Some (Fin 1000000000000000000 0) \<rparr>"
    by (simp add: example_balances_def)
  have nv: "YearnVaultApi.pricePerShare yearn_no_value (vaultAddress vault_usdc) = Inr None"
    by (simp add: yearn_no_value_def vault_usdc_def)
  then have nv': "Some yearn_no_value = None
        \<or> (\<exists>y. Some yearn_no_value = Some y
                \<and> YearnVaultApi.pricePerShare y (vaultAddress vault_usdc) = Inr None)"
    by simp
  have rj: "YearnVaultApi.pricePerShare yearn_rejecting (vaultAddress vault_usdc)
            = Inl (Thrown ''call revert exception'')"
    by (simp add: yearn_rejecting_def vault_usdc_def)
  then have rj': "\<exists>y err. Some yearn_rejecting = Some y
                    \<and> YearnVaultApi.pricePerShare y (vaultAddress vault_usdc) = Inl err"
    by simp
  have run: "getYearnVaults example_toCAIP19 example_vaults example_balances (Some yearn_no_value)
             = Inr example_held_no_value"
    by (simp add: example_defs yearn_no_value_def example_held_no_value_def)
  have m1: "map_of example_held_no_value ''0x5f18'' = Some (usdc_entry (Fin 0 0))"
    and m2: "map_of example_held_no_value ''0xda81'' = Some dai_entry"
    by (simp_all add: example_held_no_value_def)
  have cat: "map_of scenario_assets (vaultCaip19 (usdc_entry (Fin 0 0))) \<noteq> None"
    by (simp add: scenario_assets_def usdc_entry_def)
  from missing_pricePerShare_degrades
         [of vault_usdc example_vaults example_toCAIP19 _ example_balances _
             "Some yearn_no_value" scenario_assets scenario_marketData,
          OF v vc held]
       ok d nv'
  obtain out entry where r:
    "getYearnVaults example_toCAIP19 example_vaults example_balances (Some yearn_no_value) = Inr out"
    "map_of out (vaultAddress vault_usdc) = Some entry"
    "map_of scenario_assets (vaultCaip19 entry) \<noteq> None \<longrightarrow>
       makeVaultFiatAmount scenario_assets scenario_marketData entry = Fin 0 0
       \<and> fiatAmount (mergeVault scenario_assets scenario_marketData (Some yearn_no_value)
                       (vaultAddress vault_usdc) entry) = ''0''"
    by blast
  from r(1) run have "out = example_held_no_value" by simp
  with r(2) m1 have "entry = usdc_entry (Fin 0 0)" by (simp add: vault_usdc_def)
  with r(3) cat have zero:
    "makeVaultFiatAmount scenario_assets scenario_marketData (usdc_entry (Fin 0 0)) = Fin 0 0
     \<and> fiatAmount (mergeVault scenario_assets scenario_marketData (Some yearn_no_value) ''0x5f18''
                     (usdc_entry (Fin 0 0))) = ''0''"
    by (simp add: vault_usdc_def)
  from missing_pricePerShare_degrades
         [of vault_usdc example_vaults example_toCAIP19 _ example_balances _
             "Some yearn_rejecting",
          OF v vc held] rj'
  have kept: "loadVaults example_toCAIP19 example_vaults True example_balances (Some yearn_rejecting)
                example_held = (example_held, [])"
    by blast
  from d v held nv run m1 m2 zero rj kept show ?thesis by simp
qed

subsection \<open>The merged view\<close>

lemma update_fresh: "k \<notin> fst ` set al \<Longrightarrow> AList.update k v al = al @ [(k, v)]"
  by (induction al) auto

lemma fold_update_fresh:
  "distinct (map fst xs) \<Longrightarrow> fst ` set acc \<inter> fst ` set xs = {} \<Longrightarrow>
   fold (\<lambda>(k, v) acc. AList.update k (f k v) acc) xs acc = acc @ map (\<lambda>(k, v). (k, f k v)) xs"
proof (induction xs arbitrary: acc)
  case Nil
  then show ?case by simp
next
  case (Cons p xs)
  obtain k v where p: "p = (k, v)" by (cases p)
  from Cons.prems p have fresh: "k \<notin> fst ` set acc" and d: "distinct (map fst xs)"
    and kx: "k \<notin> fst ` set xs" and disj: "fst ` set acc \<inter> fst ` set xs = {}"
    by auto
  have "fst ` set (acc @ [(k, f k v)]) \<inter> fst ` set xs = {}"
    using disj kx by auto
  from Cons.IH [OF d this] show ?case
    using p fresh by (simp add: update_fresh)
qed

lemma mergedVaults_distinct:
  "distinct (map fst vaults) \<Longrightarrow>
   mergedVaults assets marketData_byId yearn vaults
   = map (\<lambda>(a, vault). (a, mergeVault assets marketData_byId yearn a vault)) vaults"
  unfolding mergedVaults_def
  using fold_update_fresh [of vaults "[]" "mergeVault assets marketData_byId yearn"]
  by simp

lemma cryptoAmount_unknown_asset:
  "map_of assets a = None \<Longrightarrow>
   cryptoAmount (mergeVault assets marketData_byId yearn a vault) = ''NaN''"
  by (simp add: mergeVault_def Let_def EarnVault.defs MergedEarnVault.defs bn_div_NaN)

lemma fiatAmount_unknown_asset:
  "map_of assets (vaultCaip19 vault) = None \<Longrightarrow>
   fiatAmount (mergeVault assets marketData_byId yearn a vault) = ''NaN''"
  by (simp add: mergeVault_def Let_def EarnVault.defs MergedEarnVault.defs
        makeVaultFiatAmount_unknown_asset)

text \<open>
  Claim C10. The merged view has the keys of the computed vaults, in the same order, and
  each entry extends its vault. When the catalog has no record under the key used for the
  lookup (the vault address for \<open>cryptoAmount\<close>, the vault identifier for
  \<open>fiatAmount\<close>), the amount is computed with the divisor \<^verbatim>\<open>1e+undefined\<close> and
  rendered \<^verbatim>\<open>NaN\<close>; the vault is emitted all the same.
\<close>

theorem mergedVaults_emits_every_vault:
  assumes "distinct (map fst vaults)"
  shows "map fst (mergedVaults assets marketData_byId yearn vaults) = map fst vaults
         \<and> (\<forall>(a, vault) \<in> set vaults.
               \<exists>merged. map_of (mergedVaults assets marketData_byId yearn vaults) a = Some merged
                 \<and> EarnVault.truncate merged = vault
                 \<and> (map_of assets a = None \<longrightarrow> cryptoAmount merged = ''NaN'')
                 \<and> (map_of assets (vaultCaip19 vault) = None \<longrightarrow> fiatAmount merged = ''NaN''))"
proof
  let ?f = "\<lambda>(a, vault). (a, mergeVault assets marketData_byId yearn a vault)"
  have eq: "mergedVaults assets marketData_byId yearn vaults = map ?f vaults"
    using assms by (rule mergedVaults_distinct)
  show "map fst (mergedVaults assets marketData_byId yearn vaults) = map fst vaults"
    by (simp add: eq case_prod_beta)
  have keys: "map fst (map ?f vaults) = map fst vaults"
    by (simp add: case_prod_beta)
  show "\<forall>(a, vault) \<in> set vaults.
          \<exists>merged. map_of (mergedVaults assets marketData_byId yearn vaults) a = Some merged
            \<and> EarnVault.truncate merged = vault
            \<and> (map_of assets a = None \<longrightarrow> cryptoAmount merged = ''NaN'')
            \<and> (map_of assets (vaultCaip19 vault) = None \<longrightarrow> fiatAmount merged = ''NaN'')"
  proof (clarify)
    fix a vault
    assume mem: "(a, vault) \<in> set vaults"
    then have "(a, mergeVault assets marketData_byId yearn a vault) \<in> set (map ?f vaults)"
      by force
    moreover have "distinct (map fst (map ?f vaults))"
      using assms by (simp only: keys)
    ultimately have "map_of (map ?f vaults) a = Some (mergeVault assets marketData_byId yearn a vault)"
      by (rule map_of_is_SomeI [rotated])
    moreover have "EarnVault.truncate (mergeVault assets marketData_byId yearn a vault) = vault"
      by (simp add: mergeVault_def Let_def EarnVault.defs MergedEarnVault.defs)
    ultimately show "\<exists>merged. map_of (mergedVaults assets marketData_byId yearn vaults) a = Some merged
            \<and> EarnVault.truncate merged = vault
            \<and> (map_of assets a = None \<longrightarrow> cryptoAmount merged = ''NaN'')
            \<and> (map_of assets (vaultCaip19 vault) = None \<longrightarrow> fiatAmount merged = ''NaN'')"
      using eq cryptoAmount_unknown_asset fiatAmount_unknown_asset by auto
  qed
qed

theorem mergedVaults_emits_every_vault_witness:
  "distinct (map fst example_held)
   \<and> map_of [] ''0x5f18'' = (None :: Asset option)
   \<and> map fst (mergedVaults [] scenario_marketData None example_held) = [''0x5f18'', ''0xda81'']
   \<and> map_option cryptoAmount (map_of (mergedVaults [] scenario_marketData None example_held) ''0x5f18'')
       = Some ''NaN''
   \<and> map_option fiatAmount (map_of (mergedVaults [] scenario_marketData None example_held) ''0x5f18'')
       = Some ''NaN''"
proof -
  have d: "distinct (map fst example_held)"
    by (simp add: example_held_def)
  have mem: "(''0x5f18'', usdc_entry (Fin 1050000000000000000 0)) \<in> set example_held"
    by (simp add: example_held_def)
  from mergedVaults_emits_every_vault [OF d, of "[]" scenario_marketData None] mem
  obtain merged where
    "map fst (mergedVaults [] scenario_marketData None example_held) = map fst example_held"
    "map_of (mergedVaults [] scenario_marketData None example_held) ''0x5f18'' = Some merged"
    "cryptoAmount merged = ''NaN''" "fiatAmount merged = ''NaN''"
    by fastforce
  then show ?thesis using d by (simp add: example_held_def)
qed

section \<open>Properties of the bulk description fetch\<close>

lemma write_descriptions_result:
  assumes "distinct (map fst prs)"
    and "\<forall>(a, r) \<in> set prs. r = Rejected \<or> map_of byId' a \<noteq> None"
  shows "\<exists>out. write_descriptions prs byId' = Inr out
           \<and> map fst out = map fst byId'
           \<and> (\<forall>a. map_of out a =
                 (case map_of prs a of
                    Some (Fulfilled d) \<Rightarrow>
                      map_option (\<lambda>asset. asset\<lparr> description := Some d \<rparr>) (map_of byId' a)
                  | _ \<Rightarrow> map_of byId' a))"
  using assms
proof (induction prs arbitrary: byId')
  case Nil
  then show ?case by simp
next
  case (Cons p prs)
  obtain a r where p: "p = (a, r)" by (cases p)
  from Cons.prems p have d: "distinct (map fst prs)" and fresh: "a \<notin> fst ` set prs"
    by auto
  then have none: "map_of prs a = None" by (simp add: map_of_eq_None_iff)
  show ?case
  proof (cases r)
    case Rejected
    from Cons.prems(2) have "\<forall>(a, r) \<in> set prs. r = Rejected \<or> map_of byId' a \<noteq> None"
      by simp
    from Cons.IH [OF d this] obtain out where out:
      "write_descriptions prs byId' = Inr out" "map fst out = map fst byId'"
      "\<forall>x. map_of out x = (case map_of prs x of
                Some (Fulfilled d) \<Rightarrow>
                  map_option (\<lambda>asset. asset\<lparr> description := Some d \<rparr>) (map_of byId' x)
              | _ \<Rightarrow> map_of byId' x)"
      by blast
    then show ?thesis using p Rejected none by auto
  next
    case (Fulfilled dsc)
    with Cons.prems(2) p obtain asset where asset: "map_of byId' a = Some asset" by auto
    let ?b = "AList.update a (asset\<lparr> description := Some dsc \<rparr>) byId'"
    have keys: "map fst ?b = map fst byId'"
      using asset by (simp add: update_keys map_of_eq_None_iff [symmetric] weak_map_of_SomeI
          domI dom_map_of_conv_image_fst [symmetric])
    have pre: "\<forall>(x, r) \<in> set prs. r = Rejected \<or> map_of ?b x \<noteq> None"
    proof (intro ballI)
      fix q
      assume q: "q \<in> set prs"
      obtain x r' where xr: "q = (x, r')" by (cases q)
      with q Cons.prems(2) have "r' = Rejected \<or> map_of byId' x \<noteq> None" by auto
      then have "r' = Rejected \<or> map_of ?b x \<noteq> None"
        by (auto simp: update_conv')
      then show "case q of (x, r) \<Rightarrow> r = Rejected \<or> map_of ?b x \<noteq> None"
        using xr by simp
    qed
    from Cons.IH [OF d pre] obtain out where out:
      "write_descriptions prs ?b = Inr out" "map fst out = map fst ?b"
      "\<forall>x. map_of out x = (case map_of prs x of
                Some (Fulfilled d) \<Rightarrow>
                  map_option (\<lambda>asset. asset\<lparr> description := Some d \<rparr>) (map_of ?b x)
              | _ \<Rightarrow> map_of ?b x)"
      by blast
    have "map_of out x = (case map_of (p # prs) x of
                Some (Fulfilled d) \<Rightarrow>
                  map_option (\<lambda>asset. asset\<lparr> description := Some d \<rparr>) (map_of byId' x)
              | _ \<Rightarrow> map_of byId' x)" for x
    proof (cases "x = a")
      case True
      then show ?thesis using out(3) none p Fulfilled asset by (simp add: update_conv')
    next
      case False
      then show ?thesis using out(3) p
        by (simp add: update_conv' split: option.splits settled.splits)
    qed
    then show ?thesis using out(1,2) keys p Fulfilled asset by simp
  qed
qed

lemma description_requests_length [simp]:
  "length (description_requests sd byId' assetIds) = length assetIds"
  by (simp add: description_requests_def)

lemma description_requests_nth:
  "i < length assetIds \<Longrightarrow>
   description_requests sd byId' assetIds ! i = sd i (map_of byId' (assetIds ! i))"
  by (simp add: description_requests_def nth_enumerate_eq)

lemma map_of_rev_distinct: "distinct (map fst xs) \<Longrightarrow> map_of (rev xs) = map_of xs"
proof (induction xs)
  case Nil
  then show ?case by simp
next
  case (Cons p xs)
  obtain k v where p: "p = (k, v)" by (cases p)
  from Cons.prems p have "k \<notin> fst ` set xs" and d: "distinct (map fst xs)" by auto
  then have none: "map_of xs k = None" by (simp add: map_of_eq_None_iff)
  have "map_of (rev (p # xs)) = map_of [(k, v)] ++ map_of (rev xs)"
    using p by (simp only: rev.simps map_of_append)
  also have "\<dots> = map_of [(k, v)] ++ map_of xs" using Cons.IH [OF d] by simp
  also have "\<dots> = (map_of xs)(k \<mapsto> v)"
    using none by (auto simp: fun_eq_iff map_add_def split: option.splits)
  finally show ?case using p by simp
qed

text \<open>An upsert of an object with distinct keys overrides the cache key by key.\<close>

lemma spread_onto:
  assumes "distinct (map fst b)"
  shows "map_of (spread a b) = map_of a ++ map_of b"
  using assms by (simp add: spread_map_of map_of_rev_distinct)

text \<open>
  Claim C6, as stated, fails in two ways. First, with a third identifier that the cache
  does not have and whose request fulfils, writing its description throws, the query has
  no data, and the description fetched for the first identifier is not recorded although
  only the second request rejected. Second, the query writes back the whole cache it read:
  when a description of the second asset lands between the read and the dispatch, the
  dispatch puts the older record back, so the record of the identifier whose request
  rejected is not left as it was.
\<close>

theorem failed_description_counterexample:
  "eager_description 0 (map_of (byId example_cache) (uncached_assetIds ! 0)) = Fulfilled ''A token''
   \<and> eager_description 1 (map_of (byId example_cache) (uncached_assetIds ! 1)) = Rejected
   \<and> eager_description 2 (map_of (byId example_cache) (uncached_assetIds ! 2)) = Fulfilled ''A token''
   \<and> getAssetDescriptions_queryFn eager_description example_cache uncached_assetIds = Inl TypeError
   \<and> map_of (byId (getAssetDescriptions eager_description example_cache example_cache
                      uncached_assetIds)) ''eip155:1/erc20:0xaa''
       = Some asset_A
   \<and> description asset_A = None
   \<and> example_description 1 (map_of (byId example_cache) (example_assetIds ! 1)) = Rejected
   \<and> map_of (byId newer_cache) ''eip155:1/erc20:0xbb''
       = Some (asset_B\<lparr> description := Some ''Balancer is an automated portfolio manager'' \<rparr>)
   \<and> map_of (byId (getAssetDescriptions example_description example_cache newer_cache
                      example_assetIds)) ''eip155:1/erc20:0xbb''
       = Some asset_B
   \<and> description asset_B = None"
  by (simp add: getAssetDescriptions_def getAssetDescriptions_queryFn_def description_requests_def
        eager_description_def example_description_def example_cache_def uncached_assetIds_def
        example_assetIds_def newer_cache_def fetchAsset_fulfilled_def setAssets_def spread_def
        asset_A_def asset_B_def asset_C_def enumerate_eq_zip upt_rec)

text \<open>
  Claim C6, amended. In a bulk description fetch over distinct identifiers, when the
  request for the identifier at position \<open>k\<close> rejects and every other request is made
  for a record of the cache the query read and fulfils, the query returns data, and after
  the dispatch each other record is the one the query read with its new description. The
  record of identifier \<open>k\<close>, like that of every identifier outside the batch, is the one
  the query read, or the current one where the query read none; so it is unchanged when
  it did not change between the read and the dispatch. (The cache the query read has each
  key once, as every object has.)
\<close>

theorem failed_description_isolated:
  assumes wf: "distinct (map fst (byId state))"
    and d: "distinct assetIds"
    and k: "k < length assetIds"
    and rej: "service_description k (map_of (byId state) (assetIds ! k)) = Rejected"
    and ok: "\<forall>i < length assetIds. i \<noteq> k \<longrightarrow>
               map_of (byId state) (assetIds ! i) = Some (cached i)
               \<and> service_description i (Some (cached i)) = Fulfilled (text i)"
  shows "(\<exists>data. getAssetDescriptions_queryFn service_description state assetIds = Inr data)
         \<and> (\<forall>i < length assetIds. i \<noteq> k \<longrightarrow>
               map_of (byId (getAssetDescriptions service_description state current assetIds))
                 (assetIds ! i)
               = Some ((cached i)\<lparr> description := Some (text i) \<rparr>))
         \<and> map_of (byId (getAssetDescriptions service_description state current assetIds))
              (assetIds ! k)
           = (map_of (byId current) ++ map_of (byId state)) (assetIds ! k)
         \<and> (map_of (byId current) (assetIds ! k) = map_of (byId state) (assetIds ! k) \<longrightarrow>
               map_of (byId (getAssetDescriptions service_description state current assetIds))
                 (assetIds ! k)
               = map_of (byId current) (assetIds ! k))
         \<and> (\<forall>a. a \<notin> set assetIds \<longrightarrow>
               map_of (byId (getAssetDescriptions service_description state current assetIds)) a
               = (map_of (byId current) ++ map_of (byId state)) a)"
proof -
  let ?rs = "description_requests service_description (byId state) assetIds"
  let ?prs = "zip assetIds ?rs"
  let ?res = "byId (getAssetDescriptions service_description state current assetIds)"
  have len: "length assetIds = length ?rs" by simp
  have fstp: "map fst ?prs = assetIds" using len by simp
  have resp: "?rs ! i = (if i = k then Rejected else Fulfilled (text i))" if "i < length assetIds" for i
    using that rej ok by (simp add: description_requests_nth)
  have look: "map_of ?prs (assetIds ! i) = Some (if i = k then Rejected else Fulfilled (text i))"
    if "i < length assetIds" for i
    using map_of_zip_nth [OF len d] that resp by simp
  have pre: "\<forall>(a, r) \<in> set ?prs. r = Rejected \<or> map_of (byId state) a \<noteq> None"
  proof (intro ballI)
    fix q
    assume q: "q \<in> set ?prs"
    obtain a r where ar: "q = (a, r)" by (cases q)
    with q obtain i where i: "i < length assetIds" "a = assetIds ! i" "r = ?rs ! i"
      by (auto simp: set_zip)
    have "r = Rejected \<or> map_of (byId state) a \<noteq> None"
    proof (cases "i = k")
      case True
      then show ?thesis using i resp by simp
    next
      case False
      with ok i show ?thesis by auto
    qed
    then show "case q of (a, r) \<Rightarrow> r = Rejected \<or> map_of (byId state) a \<noteq> None"
      using ar by simp
  qed
  from write_descriptions_result [of ?prs "byId state", OF _ pre] d fstp
  obtain out where out: "write_descriptions ?prs (byId state) = Inr out"
    "map fst out = map fst (byId state)"
    "\<forall>a. map_of out a =
       (case map_of ?prs a of
          Some (Fulfilled d) \<Rightarrow>
            map_option (\<lambda>asset. asset\<lparr> description := Some d \<rparr>) (map_of (byId state) a)
        | _ \<Rightarrow> map_of (byId state) a)"
    by auto
  have q: "getAssetDescriptions_queryFn service_description state assetIds
           = Inr \<lparr> byId = out, ids = ids state \<rparr>"
    using out(1) by (simp add: getAssetDescriptions_queryFn_def)
  have dout: "distinct (map fst out)" using wf out(2) by simp
  have res: "map_of ?res = map_of (byId current) ++ map_of out"
    using q dout by (simp add: getAssetDescriptions_def setAssets_def spread_onto)
  have others_out: "map_of out (assetIds ! i) = Some ((cached i)\<lparr> description := Some (text i) \<rparr>)"
    if "i < length assetIds" "i \<noteq> k" for i
    using out(3) look [OF that(1)] that ok by simp
  have others: "map_of ?res (assetIds ! i) = Some ((cached i)\<lparr> description := Some (text i) \<rparr>)"
    if "i < length assetIds" "i \<noteq> k" for i
    using others_out [OF that] by (simp add: res)
  have failed_out: "map_of out (assetIds ! k) = map_of (byId state) (assetIds ! k)"
    using out(3) look [OF k] by simp
  have failed: "map_of ?res (assetIds ! k) = (map_of (byId current) ++ map_of (byId state)) (assetIds ! k)"
    using failed_out by (simp add: res map_add_def)
  have same: "map_of ?res (assetIds ! k) = map_of (byId current) (assetIds ! k)"
    if "map_of (byId current) (assetIds ! k) = map_of (byId state) (assetIds ! k)"
    using failed that by (simp add: map_add_def split: option.splits)
  have outside_out: "map_of out a = map_of (byId state) a" if "a \<notin> set assetIds" for a
  proof -
    have none: "map_of ?prs a = None"
      using that fstp by (metis map_of_eq_None_iff set_map)
    from out(3) have "map_of out a =
       (case map_of ?prs a of
          Some (Fulfilled d) \<Rightarrow>
            map_option (\<lambda>asset. asset\<lparr> description := Some d \<rparr>) (map_of (byId state) a)
        | _ \<Rightarrow> map_of (byId state) a)"
      by (rule spec)
    then show ?thesis by (simp only: none option.case)
  qed
  have outside: "map_of ?res a = (map_of (byId current) ++ map_of (byId state)) a"
    if "a \<notin> set assetIds" for a
    using outside_out [OF that] by (simp add: res map_add_def)
  show ?thesis using q others failed same outside by simp
qed

text \<open>The second request of three rejects: the first and the third description are
  recorded, also onto a cache that changed in between, and the second record stays.\<close>

theorem failed_description_isolated_witness:
  "distinct (map fst (byId example_cache))
   \<and> distinct example_assetIds
   \<and> example_description 1 (map_of (byId example_cache) (example_assetIds ! 1)) = Rejected
   \<and> example_description 0 (Some asset_A) = Fulfilled ''About Aave''
   \<and> example_description 2 (Some asset_C) = Fulfilled ''About Compound''
   \<and> map_of (byId (getAssetDescriptions example_description example_cache example_cache
                      example_assetIds)) ''eip155:1/erc20:0xaa''
       = Some (asset_A\<lparr> description := Some ''About Aave'' \<rparr>)
   \<and> map_of (byId (getAssetDescriptions example_description example_cache example_cache
                      example_assetIds)) ''eip155:1/erc20:0xcc''
       = Some (asset_C\<lparr> description := Some ''About Compound'' \<rparr>)
   \<and> map_of (byId (getAssetDescriptions example_description example_cache example_cache
                      example_assetIds)) ''eip155:1/erc20:0xbb''
       = Some asset_B
   \<and> map_of (byId (getAssetDescriptions example_description example_cache newer_cache
                      example_assetIds)) ''eip155:1/erc20:0xaa''
       = Some (asset_A\<lparr> description := Some ''About Aave'' \<rparr>)"
proof -
  let ?cached = "\<lambda>i. [asset_A, asset_B, asset_C] ! i"
  let ?text = "\<lambda>i. ''About '' @ name (?cached i)"
  have wf: "distinct (map fst (byId example_cache))"
    by (simp add: example_cache_def)
  have d: "distinct example_assetIds"
    by (simp add: example_assetIds_def)
  have k: "1 < length example_assetIds"
    by (simp add: example_assetIds_def)
  have rej: "example_description 1 (map_of (byId example_cache) (example_assetIds ! 1)) = Rejected"
    by (simp add: example_description_def)
  have ok: "\<forall>i < length example_assetIds. i \<noteq> 1 \<longrightarrow>
              map_of (byId example_cache) (example_assetIds ! i) = Some (?cached i)
              \<and> example_description i (Some (?cached i)) = Fulfilled (?text i)"
    by (simp add: example_assetIds_def example_cache_def example_description_def
          numeral_3_eq_3 less_Suc_eq)
  have f0: "example_description 0 (Some asset_A) = Fulfilled ''About Aave''"
    and f2: "example_description 2 (Some asset_C) = Fulfilled ''About Compound''"
    by (simp_all add: example_description_def asset_A_def asset_C_def)
  from failed_description_isolated [OF wf d k rej ok, of example_cache]
  have others: "\<forall>i < length example_assetIds. i \<noteq> 1 \<longrightarrow>
               map_of (byId (getAssetDescriptions example_description example_cache example_cache
                              example_assetIds))
                 (example_assetIds ! i)
               = Some ((?cached i)\<lparr> description := Some (?text i) \<rparr>)"
    and failed: "map_of (byId example_cache) (example_assetIds ! 1)
                   = map_of (byId example_cache) (example_assetIds ! 1) \<longrightarrow>
                 map_of (byId (getAssetDescriptions example_description example_cache example_cache
                                example_assetIds))
                   (example_assetIds ! 1)
                 = map_of (byId example_cache) (example_assetIds ! 1)"
    by blast+
  from failed_description_isolated [OF wf d k rej ok, of newer_cache]
  have others_newer: "\<forall>i < length example_assetIds. i \<noteq> 1 \<longrightarrow>
               map_of (byId (getAssetDescriptions example_description example_cache newer_cache
                              example_assetIds))
                 (example_assetIds ! i)
               = Some ((?cached i)\<lparr> description := Some (?text i) \<rparr>)"
    by blast
  from others [rule_format, of 0]
  have a: "map_of (byId (getAssetDescriptions example_description example_cache example_cache
                           example_assetIds)) ''eip155:1/erc20:0xaa''
           = Some (asset_A\<lparr> description := Some ''About Aave'' \<rparr>)"
    by (simp add: example_assetIds_def asset_A_def)
  from others [rule_format, of 2]
  have c: "map_of (byId (getAssetDescriptions example_description example_cache example_cache
                           example_assetIds)) ''eip155:1/erc20:0xcc''
           = Some (asset_C\<lparr> description := Some ''About Compound'' \<rparr>)"
    by (simp add: example_assetIds_def asset_C_def)
  from others_newer [rule_format, of 0]
  have a': "map_of (byId (getAssetDescriptions example_description example_cache newer_cache
                            example_assetIds)) ''eip155:1/erc20:0xaa''
            = Some (asset_A\<lparr> description := Some ''About Aave'' \<rparr>)"
    by (simp add: example_assetIds_def asset_A_def)
  from failed have b: "map_of (byId (getAssetDescriptions example_description example_cache
                                       example_cache example_assetIds)) ''eip155:1/erc20:0xbb''
                       = Some asset_B"
    by (simp add: example_assetIds_def example_cache_def)
  show ?thesis using wf d rej f0 f2 a b c a' by simp
qed

section \<open>Properties of the sorted selector\<close>

text \<open>The reduction over distinct keys collects the assets found and leaves the others
  in the object it works on.\<close>

lemma byMarketCap_fold:
  "distinct ks \<Longrightarrow>
   foldl (byMarketCap_step a) (acc, s) ks
   = (acc @ List.map_filter (map_of (assetMaps s a)) ks,
      s\<lparr> assetMaps := (assetMaps s)(a := filter (\<lambda>p. fst p \<notin> set ks) (assetMaps s a)) \<rparr>)"
proof (induction ks arbitrary: acc s)
  case Nil
  then show ?case by (simp add: List.map_filter_simps)
next
  case (Cons k ks)
  then have d: "distinct ks" and fresh: "k \<notin> set ks" by auto
  let ?al = "assetMaps s a"
  show ?case
  proof (cases "map_of ?al k")
    case None
    then have "k \<notin> fst ` set ?al" by (simp add: map_of_eq_None_iff)
    then have "filter (\<lambda>p. fst p \<notin> set (k # ks)) ?al = filter (\<lambda>p. fst p \<notin> set ks) ?al"
      by (intro filter_cong) auto
    then show ?thesis using None Cons.IH [OF d, of acc s] by (simp add: List.map_filter_simps)
  next
    case (Some asset)
    let ?s' = "s\<lparr> assetMaps := (assetMaps s)(a := AList.delete k ?al) \<rparr>"
    have same: "List.map_filter (map_of (AList.delete k ?al)) ks = List.map_filter (map_of ?al) ks"
      using fresh by (auto simp: List.map_filter_def delete_conv' intro!: map_cong filter_cong)
    have rest: "filter (\<lambda>p. fst p \<notin> set ks) (AList.delete k ?al)
                = filter (\<lambda>p. fst p \<notin> set (k # ks)) ?al"
      by (auto simp: AList.delete_eq intro: filter_cong)
    have step: "byMarketCap_step a (acc, s) k = (acc @ [asset], ?s')"
      using Some by simp
    have "foldl (byMarketCap_step a) (acc @ [asset], ?s') ks
          = ((acc @ [asset]) @ List.map_filter (map_of (assetMaps ?s' a)) ks,
             ?s'\<lparr> assetMaps := (assetMaps ?s')(a := filter (\<lambda>p. fst p \<notin> set ks) (assetMaps ?s' a)) \<rparr>)"
      by (rule Cons.IH [OF d])
    moreover have "?s'\<lparr> assetMaps := (assetMaps ?s')(a := filter (\<lambda>p. fst p \<notin> set ks) (assetMaps ?s' a)) \<rparr>
          = s\<lparr> assetMaps := (assetMaps s)(a := filter (\<lambda>p. fst p \<notin> set (k # ks)) ?al) \<rparr>"
      using rest by simp
    moreover have "List.map_filter (map_of (assetMaps ?s' a)) ks = List.map_filter (map_of ?al) ks"
      using same by simp
    ultimately have "foldl (byMarketCap_step a) (acc @ [asset], ?s') ks
          = ((acc @ [asset]) @ List.map_filter (map_of ?al) ks,
             s\<lparr> assetMaps := (assetMaps s)(a := filter (\<lambda>p. fst p \<notin> set (k # ks)) ?al) \<rparr>)"
      by (simp only:)
    moreover have "foldl (byMarketCap_step a) (acc, s) (k # ks)
          = foldl (byMarketCap_step a) (acc @ [asset], ?s') ks"
      by (simp only: foldl.simps step)
    moreover have "List.map_filter (map_of ?al) (k # ks) = asset # List.map_filter (map_of ?al) ks"
      using Some by (simp add: List.map_filter_simps)
    ultimately show ?thesis by (simp only: append_assoc append.simps)
  qed
qed

text \<open>The step writes the object it is given: applied to the reference of a cached object,
  it would remove the asset from the cache.\<close>

lemma byMarketCap_step_writes:
  assumes "map_of (assetMaps s r) cur = Some asset"
  shows "assetMaps (snd (byMarketCap_step r (acc, s) cur)) r = AList.delete cur (assetMaps s r)
         \<and> assetMaps (snd (byMarketCap_step r (acc, s) cur)) r \<noteq> assetMaps s r"
proof -
  have w: "assetMaps (snd (byMarketCap_step r (acc, s) cur)) r = AList.delete cur (assetMaps s r)"
    using assms by simp
  have "map_of (AList.delete cur (assetMaps s r)) cur = None"
    by (simp add: delete_conv')
  with assms have "AList.delete cur (assetMaps s r) \<noteq> assetMaps s r" by auto
  with w show ?thesis by simp
qed

text \<open>
  Claim C8. With market data, the selector returns first the assets that have a
  market-data entry, in the order of the keys of the market data, and then the remaining
  assets sorted by name and symbol; that second part is in ascending order. The call
  writes only the copy it allocates: the asset map it was given, every other object in
  use before the call and the market data are in the store as they were. (The market data
  has each key once, as every object has.)
\<close>

theorem selectAssetsByMarketCap_order:
  assumes "assetsByIdOriginal < next_ref s"
    and "distinct (map fst (marketMaps s md))"
  shows "selectAssetsByMarketCap s assetsByIdOriginal (Some md)
         = List.map_filter (map_of (assetMaps s assetsByIdOriginal)) (map fst (marketMaps s md))
             @ sort_key (\<lambda>a. (name a, symbol a))
                 (map snd (filter (\<lambda>p. fst p \<notin> fst ` set (marketMaps s md))
                                  (assetMaps s assetsByIdOriginal)))
         \<and> sorted (map (\<lambda>a. (name a, symbol a))
              (sort_key (\<lambda>a. (name a, symbol a))
                 (map snd (filter (\<lambda>p. fst p \<notin> fst ` set (marketMaps s md))
                                  (assetMaps s assetsByIdOriginal)))))
         \<and> assetMaps (snd (selectAssetsByMarketCap_run s assetsByIdOriginal (Some md)))
              assetsByIdOriginal
           = assetMaps s assetsByIdOriginal
         \<and> (\<forall>r < next_ref s.
               assetMaps (snd (selectAssetsByMarketCap_run s assetsByIdOriginal (Some md))) r
               = assetMaps s r)
         \<and> marketMaps (snd (selectAssetsByMarketCap_run s assetsByIdOriginal (Some md)))
           = marketMaps s"
proof -
  let ?c = "next_ref s"
  let ?s1 = "s\<lparr> assetMaps := (assetMaps s)(?c := assetMaps s assetsByIdOriginal),
                next_ref := Suc ?c \<rparr>"
  let ?ks = "map fst (marketMaps s md)"
  have clone: "cloneDeep s assetsByIdOriginal = (?s1, ?c)"
    by (simp add: cloneDeep_def)
  have fold: "foldl (byMarketCap_step ?c) ([], ?s1) ?ks
        = ([] @ List.map_filter (map_of (assetMaps ?s1 ?c)) ?ks,
           ?s1\<lparr> assetMaps := (assetMaps ?s1)(?c := filter (\<lambda>p. fst p \<notin> set ?ks) (assetMaps ?s1 ?c)) \<rparr>)"
    using assms(2) by (rule byMarketCap_fold)
  let ?s2 = "?s1\<lparr> assetMaps := (assetMaps ?s1)(?c := filter (\<lambda>p. fst p \<notin> set ?ks) (assetMaps ?s1 ?c)) \<rparr>"
  have run: "selectAssetsByMarketCap_run s assetsByIdOriginal (Some md)
        = (List.map_filter (map_of (assetMaps s assetsByIdOriginal)) ?ks
             @ sortBy_name_symbol (map snd (filter (\<lambda>p. fst p \<notin> set ?ks)
                                                   (assetMaps s assetsByIdOriginal))),
           ?s2)"
    unfolding selectAssetsByMarketCap_run_def clone
    using fold by simp
  have untouched: "assetMaps ?s2 r = assetMaps s r" if "r < ?c" for r
    using that by simp
  show ?thesis
    unfolding selectAssetsByMarketCap_def run
    using untouched assms(1) by (simp add: sortBy_name_symbol_def)
qed

text \<open>The example of the specification: assets A (rank 2), B (rank 1) and C (no rank) come
  out as B, A, C; with a fourth unranked asset the unranked ones come out by name. Both
  cached objects are as they were.\<close>

theorem selectAssetsByMarketCap_order_witness:
  "0 < next_ref example_store
   \<and> distinct (map fst (marketMaps example_store 0))
   \<and> selectAssetsByMarketCap example_store 0 (Some 0) = [asset_B, asset_A, asset_C]
   \<and> assetMaps (snd (selectAssetsByMarketCap_run example_store 0 (Some 0))) 0
       = byId example_cache
   \<and> marketMaps (snd (selectAssetsByMarketCap_run example_store 0 (Some 0))) 0
       = example_marketData
   \<and> selectAssetsByMarketCap example_store 1 (Some 0) = [asset_B, asset_A, asset_C, asset_U]
   \<and> assetMaps (snd (selectAssetsByMarketCap_run example_store 1 (Some 0))) 1
       = larger_catalog"
proof -
  have a0: "0 < next_ref example_store" and a1: "1 < next_ref example_store"
    by (simp_all add: example_store_def)
  have d: "distinct (map fst (marketMaps example_store 0))"
    by (simp add: example_store_def example_marketData_def)
  have m: "marketMaps example_store 0 = example_marketData"
    and c0: "assetMaps example_store 0 = byId example_cache"
    and c1: "assetMaps example_store (Suc 0) = larger_catalog"
    by (simp_all add: example_store_def)
  have r1: "List.map_filter (map_of (byId example_cache)) (map fst example_marketData)
              @ sort_key (\<lambda>a. (name a, symbol a))
                  (map snd (filter (\<lambda>p. fst p \<notin> fst ` set example_marketData) (byId example_cache)))
            = [asset_B, asset_A, asset_C]"
    by code_simp
  have r2: "List.map_filter (map_of larger_catalog) (map fst example_marketData)
              @ sort_key (\<lambda>a. (name a, symbol a))
                  (map snd (filter (\<lambda>p. fst p \<notin> fst ` set example_marketData) larger_catalog))
            = [asset_B, asset_A, asset_C, asset_U]"
    by code_simp
  from selectAssetsByMarketCap_order [OF a0 d] r1
  have x: "selectAssetsByMarketCap example_store 0 (Some 0) = [asset_B, asset_A, asset_C]"
    and x1: "assetMaps (snd (selectAssetsByMarketCap_run example_store 0 (Some 0))) 0
             = byId example_cache"
    and x2: "marketMaps (snd (selectAssetsByMarketCap_run example_store 0 (Some 0))) 0
             = example_marketData"
    by (simp_all add: m c0)
  from selectAssetsByMarketCap_order [OF a1 d] r2
  have y: "selectAssetsByMarketCap example_store 1 (Some 0) = [asset_B, asset_A, asset_C, asset_U]"
    and y1: "assetMaps (snd (selectAssetsByMarketCap_run example_store 1 (Some 0))) 1
             = larger_catalog"
    by (simp_all add: m c1)
  show ?thesis using a0 d x x1 x2 y y1 by simp
qed

end
